theory Spec2Isabelle
  imports Main
begin

section \<open>The bank API of src/app.js\<close>

text \<open>
  The service keeps three pieces of process-wide state (app.js lines 20-22): the Map
  \<open>accounts\<close>, the Map \<open>sessions\<close> and the counter \<open>requestCount\<close>.  Every route
  handler is embedded as a function from the state and the request's fields to a reply
  and the new state.

  Conventions of the embedding.
  \<^item> A field of the JSON body or a header that may be missing is an \<open>option\<close>;
    \<open>None\<close> is JavaScript's \<open>undefined\<close>.  Identifiers, names and tokens are strings.
  \<^item> Amounts and balances are JavaScript numbers, that is IEEE doubles.  The model has
    the doubles without fraction, \<open>Infinity\<close>, \<open>-Infinity\<close> and \<open>NaN\<close>, with the
    rounding of \<open>+\<close> and \<open>-\<close> to the nearest double (section Numbers).  The request
    counter is a \<open>nat\<close>.
  \<^item> What the environment supplies is a parameter of the handler: the string produced
    by \<open>Math.random().toString(36).slice(2)\<close> in /login, the outcome of the test
    \<open>Math.random() < 0.1\<close> in /balance, and the value of each \<open>new Date()\<close>.
  \<^item> An HTTP error reply is \<open>Inl\<close> of the \<open>error_type\<close> label the handler counts;
    a thrown exception is an error value too.
  \<^item> Metrics, logging and tracing change none of the three state components and are
    left out.
  \<^item> A request is one that reaches the middleware of line 79 with its body parsed.  What
    Express answers by itself (an unknown route, a body that \<open>express.json()\<close> rejects)
    is not modelled.
  \<^item> JavaScript runs each callback to completion.  A handler is therefore one step on
    the state, except the \<open>async\<close> /transfer handler, which is two steps with other
    requests in between.
\<close>

subsection \<open>Numbers\<close>

text \<open>
  A JavaScript number of the model: an integer that is a double, or one of the three
  special values.  \<open>Num 0\<close> stands for both zeros, which \<open>+\<close>, \<open>-\<close>, \<open><\<close>, \<open><=\<close> and \<open>!\<close>
  do not tell apart on these values.  A body field holds such a number:
  \<open>JSON.parse\<close> rounds an integer literal to the nearest double and gives \<open>Infinity\<close>
  for a literal like \<open>1e400\<close>.  The operations below return doubles whatever their
  arguments.
\<close>

datatype number = Num int | PosInf | NegInf | NaN

text \<open>
  Rounding a natural number to 53 significant bits, ties to even.  \<open>scale m\<close> is the
  number of low bits that do not fit: the least \<open>e\<close> with \<open>m div 2 ^ e < 2 ^ 53\<close>.
\<close>

function scale :: "nat \<Rightarrow> nat" where
  "scale m = (if m < 9007199254740992 then 0 else Suc (scale (m div 2)))"
  by pat_completeness auto
termination
  by (relation "measure (\<lambda>m. m)") auto

declare scale.simps [simp del]

definition round_nat :: "nat \<Rightarrow> nat" where
  "round_nat m =
     (let e = scale m; q = m div 2 ^ e; r = m mod 2 ^ e
      in (if 2 ^ e < 2 * r \<or> (2 * r = 2 ^ e \<and> odd q) then q + 1 else q) * 2 ^ e)"

text \<open>
  The double nearest to an integer; a magnitude that rounds to \<open>2 ^ 1024\<close> or more is
  infinite.
\<close>

definition round_double :: "int \<Rightarrow> number" where
  "round_double n =
     (let v = int (round_nat (nat \<bar>n\<bar>))
      in if 2 ^ 1024 \<le> v then (if n < 0 then NegInf else PosInf)
         else Num (if n < 0 then - v else v))"

text \<open>The operators the handlers use: \<open>x + y\<close>, \<open>x - y\<close>, \<open>x < y\<close>, \<open>x <= y\<close>, \<open>!x\<close>.\<close>

fun js_add :: "number \<Rightarrow> number \<Rightarrow> number" where
  "js_add (Num a) (Num b) = round_double (a + b)"
| "js_add NaN y = NaN"
| "js_add x NaN = NaN"
| "js_add PosInf NegInf = NaN"
| "js_add NegInf PosInf = NaN"
| "js_add PosInf y = PosInf"
| "js_add NegInf y = NegInf"
| "js_add x PosInf = PosInf"
| "js_add x NegInf = NegInf"

fun js_neg :: "number \<Rightarrow> number" where
  "js_neg (Num a) = Num (- a)"
| "js_neg PosInf = NegInf"
| "js_neg NegInf = PosInf"
| "js_neg NaN = NaN"

definition js_sub :: "number \<Rightarrow> number \<Rightarrow> number" where
  "js_sub x y = js_add x (js_neg y)"

fun js_lt :: "number \<Rightarrow> number \<Rightarrow> bool" where
  "js_lt (Num a) (Num b) = (a < b)"
| "js_lt NaN y = False"
| "js_lt x NaN = False"
| "js_lt x NegInf = False"
| "js_lt PosInf y = False"
| "js_lt NegInf y = True"
| "js_lt x PosInf = True"

fun js_le :: "number \<Rightarrow> number \<Rightarrow> bool" where
  "js_le (Num a) (Num b) = (a \<le> b)"
| "js_le NaN y = False"
| "js_le x NaN = False"
| "js_le NegInf y = True"
| "js_le x PosInf = True"
| "js_le x NegInf = False"
| "js_le PosInf y = False"

definition js_not :: "number \<Rightarrow> bool" where
  "js_not x \<longleftrightarrow> x = Num 0 \<or> x = NaN"

subsection \<open>Data\<close>

text \<open>
  The three object literals pushed to \<open>transactions\<close>:
  \<open>{type:'debit', amount, to, date}\<close>, \<open>{type:'credit', amount, from, date}\<close> and
  \<open>{type:'loan', amount, date}\<close>.
\<close>

datatype transaction =
    Debit number string nat
  | Credit number string nat
  | Loan number nat

text \<open>The value stored in \<open>accounts\<close>: \<open>{ name, balance, transactions }\<close>.\<close>

record account =
  name :: string
  balance :: number
  transactions :: "transaction list"

record state =
  accounts :: "string \<rightharpoonup> account"
  sessions :: "string \<rightharpoonup> string"
  requestCount :: nat

definition init :: state where
  "init = \<lparr>accounts = Map.empty, sessions = Map.empty, requestCount = 0\<rparr>"

text \<open>
  The \<open>error_type\<close> labels of app.js with their HTTP status: \<open>rate_limit\<close> 429,
  \<open>unauthorized\<close> 401, \<open>bad_request\<close> 400, \<open>conflict\<close> 409, \<open>not_found\<close> 404,
  \<open>insufficient_funds\<close> 400, \<open>server_error\<close> 500.  \<open>unhandled_rejection\<close> is an
  exception thrown inside the \<open>async\<close> /transfer handler, which Express does not route
  to the error middleware.
\<close>

datatype error =
    rate_limit
  | unauthorized
  | bad_request
  | conflict
  | not_found
  | insufficient_funds
  | server_error
  | unhandled_rejection

text \<open>The JSON bodies of the successful replies.\<close>

datatype response =
    Registered string
  | Token string
  | AccountList
  | BalanceOf string number
  | TransferSuccessful number
  | LoanApproved number
  | StatementOf string "transaction list"
  | MetricsText

type_synonym reply = "error + response"

subsection \<open>Middleware\<close>

text \<open>
  The rate-limit middleware (lines 79-87): \<open>requestCount++\<close>, then the request is
  answered 429 when \<open>requestCount % 10 === 0\<close>.  The result is the flag "rejected" and
  the state with the incremented counter.
\<close>

definition rateLimit :: "state \<Rightarrow> bool \<times> state" where
  "rateLimit s =
     (let s' = s\<lparr>requestCount := requestCount s + 1\<rparr>
      in (requestCount s' mod 10 = 0, s'))"

text \<open>
  \<open>authenticate\<close> (lines 90-99): \<open>!token || !sessions.has(token)\<close> answers 401;
  otherwise \<open>req.userId = sessions.get(token)\<close>.  The empty string is falsy.
\<close>

definition authenticate :: "state \<Rightarrow> string option \<Rightarrow> error + string" where
  "authenticate s token =
     (case token of
        None \<Rightarrow> Inl unauthorized
      | Some t \<Rightarrow>
          if t = [] then Inl unauthorized
          else (case sessions s t of
                  None \<Rightarrow> Inl unauthorized
                | Some u \<Rightarrow> Inr u))"

subsection \<open>Route handlers\<close>

text \<open>
  POST /register (lines 114-129).  \<open>balance\<close> defaults to 1000 when the body has no
  such field; no other check is made on it.
\<close>

definition register :: "state \<Rightarrow> string option \<Rightarrow> string option \<Rightarrow> number option \<Rightarrow> reply \<times> state" where
  "register s userId nm bal =
     (let b = (case bal of None \<Rightarrow> Num 1000 | Some v \<Rightarrow> v) in
      case userId of
        None \<Rightarrow> (Inl bad_request, s)
      | Some u \<Rightarrow>
         (case nm of
            None \<Rightarrow> (Inl bad_request, s)
          | Some n \<Rightarrow>
              if u = [] \<or> n = [] then (Inl bad_request, s)
              else if accounts s u \<noteq> None then (Inl conflict, s)
              else (Inr (Registered u),
                    s\<lparr>accounts := (accounts s)(u \<mapsto> \<lparr>name = n, balance = b, transactions = []\<rparr>)\<rparr>)))"

text \<open>
  POST /login (lines 131-142).  \<open>rnd\<close> is the base-36 string drawn from
  \<open>Math.random()\<close>; \<open>sessions.set\<close> overwrites an entry that is already there.
\<close>

definition login :: "state \<Rightarrow> string option \<Rightarrow> string \<Rightarrow> reply \<times> state" where
  "login s userId rnd =
     (case userId of
        None \<Rightarrow> (Inl not_found, s)
      | Some u \<Rightarrow>
          if accounts s u = None then (Inl not_found, s)
          else (let token = ''token_'' @ rnd
                in (Inr (Token token), s\<lparr>sessions := (sessions s)(token \<mapsto> u)\<rparr>)))"

text \<open>
  GET /accounts (lines 144-147) and GET /metrics (lines 102-111) read the state only;
  the listing itself is not modelled.
\<close>

definition getAccounts :: "state \<Rightarrow> string option \<Rightarrow> reply \<times> state" where
  "getAccounts s token =
     (case authenticate s token of
        Inl e \<Rightarrow> (Inl e, s)
      | Inr u \<Rightarrow> (Inr AccountList, s))"

definition getMetrics :: "state \<Rightarrow> reply \<times> state" where
  "getMetrics s = (Inr MetricsText, s)"

text \<open>
  GET /balance (lines 149-158).  \<open>fault\<close> is the outcome of \<open>Math.random() < 0.1\<close>;
  the thrown error reaches the error middleware (500).  Reading \<open>account.balance\<close> of
  a missing account throws as well.
\<close>

definition getBalance :: "state \<Rightarrow> string option \<Rightarrow> bool \<Rightarrow> reply \<times> state" where
  "getBalance s token fault =
     (case authenticate s token of
        Inl e \<Rightarrow> (Inl e, s)
      | Inr u \<Rightarrow>
          if fault then (Inl server_error, s)
          else (case accounts s u of
                  None \<Rightarrow> (Inl server_error, s)
                | Some a \<Rightarrow> (Inr (BalanceOf u (balance a)), s)))"

text \<open>
  POST /transfer (lines 160-185) is the one \<open>async\<close> handler.  It runs in two parts,
  separated by the \<open>await\<close> of line 178; each part runs to completion on the event
  loop.  The first part (lines 160-177, after \<open>authenticate\<close>) only reads the state:
  it answers an error or keeps \<open>req.userId\<close>, \<open>toUserId\<close> and \<open>amount\<close> for the second
  part.  \<open>!amount\<close> holds for a missing amount, for 0 and for \<open>NaN\<close>.  Were no account stored for
  the session, \<open>sender.balance\<close> would throw.
\<close>

record pending =
  p_userId :: string
  p_toUserId :: string
  p_amount :: number

definition transfer_check :: "state \<Rightarrow> string option \<Rightarrow> string option \<Rightarrow> number option \<Rightarrow> error + pending" where
  "transfer_check s token toUserId amt =
     (case authenticate s token of
        Inl e \<Rightarrow> Inl e
      | Inr u \<Rightarrow>
         (case toUserId of
            None \<Rightarrow> Inl bad_request
          | Some t \<Rightarrow>
             (case amt of
                None \<Rightarrow> Inl bad_request
              | Some a \<Rightarrow>
                  if t = [] \<or> js_not a \<or> js_le a (Num 0) then Inl bad_request
                  else if accounts s t = None then Inl not_found
                  else (case accounts s u of
                          None \<Rightarrow> Inl unhandled_rejection
                        | Some sender \<Rightarrow>
                            if js_lt (balance sender) a then Inl insufficient_funds
                            else Inr \<lparr>p_userId = u, p_toUserId = t, p_amount = a\<rparr>))))"

text \<open>
  The second part (lines 179-184).  \<open>sender\<close> is the object fetched before the
  \<open>await\<close>; an entry of \<open>accounts\<close> is never replaced or removed, so it is the entry
  under \<open>req.userId\<close> at the time of the commit.  The recipient is fetched again
  after the sender has been debited, which is what makes a transfer to oneself see
  the debited balance.  \<open>d1\<close> and \<open>d2\<close> are the two \<open>new Date()\<close>.  The two cases of
  a missing account stand for the exception the access would throw; neither arises for
  a transfer that has passed the first part (lemma \<open>running_waiting_stored\<close>).
\<close>

definition transfer_commit :: "state \<Rightarrow> pending \<Rightarrow> nat \<Rightarrow> nat \<Rightarrow> reply \<times> state" where
  "transfer_commit s p d1 d2 =
     (case accounts s (p_userId p) of
        None \<Rightarrow> (Inl unhandled_rejection, s)
      | Some sender \<Rightarrow>
         (let s1 = s\<lparr>accounts := (accounts s)(p_userId p \<mapsto>
                      sender\<lparr>balance := js_sub (balance sender) (p_amount p),
                             transactions := transactions sender @ [Debit (p_amount p) (p_toUserId p) d1]\<rparr>)\<rparr>
          in case accounts s1 (p_toUserId p) of
               None \<Rightarrow> (Inl unhandled_rejection, s1)
             | Some rcpt \<Rightarrow>
                 (Inr (TransferSuccessful (p_amount p)),
                  s1\<lparr>accounts := (accounts s1)(p_toUserId p \<mapsto>
                      rcpt\<lparr>balance := js_add (balance rcpt) (p_amount p),
                           transactions := transactions rcpt @ [Credit (p_amount p) (p_userId p) d2]\<rparr>)\<rparr>)))"

text \<open>A transfer that no other request overlaps: both parts, one after the other.\<close>

definition transfer :: "state \<Rightarrow> string option \<Rightarrow> string option \<Rightarrow> number option \<Rightarrow> nat \<Rightarrow> nat \<Rightarrow> reply \<times> state" where
  "transfer s token toUserId amt d1 d2 =
     (case transfer_check s token toUserId amt of
        Inl e \<Rightarrow> (Inl e, s)
      | Inr p \<Rightarrow> transfer_commit s p d1 d2)"

text \<open>POST /loan (lines 187-199); \<open>d\<close> is the \<open>new Date()\<close>.\<close>

definition loan :: "state \<Rightarrow> string option \<Rightarrow> number option \<Rightarrow> nat \<Rightarrow> reply \<times> state" where
  "loan s token amt d =
     (case authenticate s token of
        Inl e \<Rightarrow> (Inl e, s)
      | Inr u \<Rightarrow>
         (case amt of
            None \<Rightarrow> (Inl bad_request, s)
          | Some a \<Rightarrow>
              if js_not a \<or> js_le a (Num 0) \<or> js_lt (Num 10000) a then (Inl bad_request, s)
              else (case accounts s u of
                      None \<Rightarrow> (Inl server_error, s)
                    | Some acc \<Rightarrow>
                        (Inr (LoanApproved a),
                         s\<lparr>accounts := (accounts s)(u \<mapsto>
                             acc\<lparr>balance := js_add (balance acc) a,
                                 transactions := transactions acc @ [Loan a d]\<rparr>)\<rparr>))))"

text \<open>GET /statement (lines 201-205).\<close>

definition statement :: "state \<Rightarrow> string option \<Rightarrow> reply \<times> state" where
  "statement s token =
     (case authenticate s token of
        Inl e \<Rightarrow> (Inl e, s)
      | Inr u \<Rightarrow>
         (case accounts s u of
            None \<Rightarrow> (Inl server_error, s)
          | Some acc \<Rightarrow> (Inr (StatementOf u (transactions acc)), s)))"

subsection \<open>Requests, one after the other\<close>

text \<open>
  A request names its route and carries the fields the handler reads, together with
  what the environment supplies while it is handled.
\<close>

datatype request =
    PostRegister "string option" "string option" "number option"
  | PostLogin "string option" string
  | GetAccounts "string option"
  | GetBalance "string option" bool
  | PostTransfer "string option" "string option" "number option" nat nat
  | PostLoan "string option" "number option" nat
  | GetStatement "string option"
  | GetMetrics

fun route :: "state \<Rightarrow> request \<Rightarrow> reply \<times> state" where
  "route s (PostRegister userId nm bal) = register s userId nm bal"
| "route s (PostLogin userId rnd) = login s userId rnd"
| "route s (GetAccounts token) = getAccounts s token"
| "route s (GetBalance token fault) = getBalance s token fault"
| "route s (PostTransfer token toUserId amt d1 d2) = transfer s token toUserId amt d1 d2"
| "route s (PostLoan token amt d) = loan s token amt d"
| "route s (GetStatement token) = statement s token"
| "route s GetMetrics = getMetrics s"

text \<open>Every request passes the rate-limit middleware before its route.\<close>

definition handle :: "state \<Rightarrow> request \<Rightarrow> reply \<times> state" where
  "handle s req =
     (case rateLimit s of
        (True, s') \<Rightarrow> (Inl rate_limit, s')
      | (False, s') \<Rightarrow> route s' req)"

text \<open>The replies to a list of requests, in order, and the state after the last.\<close>

fun run :: "state \<Rightarrow> request list \<Rightarrow> reply list \<times> state" where
  "run s [] = ([], s)"
| "run s (req # reqs) =
     (case handle s req of
        (r, s') \<Rightarrow> (case run s' reqs of (rs, s'') \<Rightarrow> (r # rs, s'')))"

subsection \<open>Requests that overlap\<close>

text \<open>
  While a transfer waits at its \<open>await\<close>, other requests are handled.  \<open>running s W\<close>
  says that the process can be in state \<open>s\<close> with the transfers \<open>W\<close> waiting: a request
  is handled without overlap, or a transfer passes the rate limit and its first part
  and is suspended, or the timer of a waiting transfer fires and its second part runs.
\<close>

inductive running :: "state \<Rightarrow> pending list \<Rightarrow> bool" where
  running_init: "running init []"
| running_handle: "running s W \<Longrightarrow> running (snd (handle s req)) W"
| running_suspend:
    "running s W \<Longrightarrow> rateLimit s = (False, s') \<Longrightarrow>
     transfer_check s' token toUserId amt = Inr p \<Longrightarrow> running s' (p # W)"
| running_resume:
    "running s W \<Longrightarrow> p \<in> set W \<Longrightarrow>
     running (snd (transfer_commit s p d1 d2)) (remove1 p W)"

definition reachable :: "state \<Rightarrow> bool" where
  "reachable s \<longleftrightarrow> (\<exists>W. running s W)"

text \<open>
  Several /transfer requests inside the handler at once.  \<open>Start i\<close> runs the first
  part of request \<open>i\<close>: it replies with the error or suspends.  \<open>Resume i\<close> is the timer
  of request \<open>i\<close>: it runs the second part and replies.  Between two events any other
  request observes \<open>store\<close>.
\<close>

datatype event =
    Start nat "string option" "string option" "number option"
  | Resume nat nat nat

record loop =
  store :: state
  waiting :: "nat \<rightharpoonup> pending"
  replies :: "nat \<rightharpoonup> reply"

fun fire :: "loop \<Rightarrow> event \<Rightarrow> loop" where
  "fire L (Start i token toUserId amt) =
     (case transfer_check (store L) token toUserId amt of
        Inl e \<Rightarrow> L\<lparr>replies := (replies L)(i \<mapsto> Inl e)\<rparr>
      | Inr p \<Rightarrow> L\<lparr>waiting := (waiting L)(i \<mapsto> p)\<rparr>)"
| "fire L (Resume i d1 d2) =
     (case waiting L i of
        None \<Rightarrow> L
      | Some p \<Rightarrow>
         (case transfer_commit (store L) p d1 d2 of
            (r, s') \<Rightarrow> L\<lparr>store := s', waiting := (waiting L)(i := None),
                             replies := (replies L)(i \<mapsto> r)\<rparr>))"

definition enter :: "state \<Rightarrow> loop" where
  "enter s = \<lparr>store = s, waiting = Map.empty, replies = Map.empty\<rparr>"

subsection \<open>Notions used in the statements\<close>

text \<open>
  The integer a number stands for, and the sum of all account balances.  The sum is
  the sum of the balances when all of them are integers, which is where the statements
  use it.
\<close>

fun the_int :: "number \<Rightarrow> int" where
  "the_int (Num n) = n"
| "the_int _ = 0"

definition total_balance :: "state \<Rightarrow> int" where
  "total_balance s = (\<Sum>u \<in> dom (accounts s). the_int (balance (the (accounts s u))))"


text \<open>
  What lines 179-184 do to the account stored under \<open>v\<close>: the debit if \<open>v\<close> is the
  sender, then the credit if \<open>v\<close> is the recipient.
\<close>

definition debited :: "pending \<Rightarrow> string \<Rightarrow> number \<Rightarrow> number" where
  "debited p v b = (if v = p_userId p then js_sub b (p_amount p) else b)"

definition credited :: "pending \<Rightarrow> string \<Rightarrow> number \<Rightarrow> number" where
  "credited p v b = (if v = p_toUserId p then js_add b (p_amount p) else b)"

definition debit_credit :: "pending \<Rightarrow> nat \<Rightarrow> nat \<Rightarrow> string \<Rightarrow> account \<Rightarrow> account" where
  "debit_credit p d1 d2 v acc =
     acc\<lparr>balance := credited p v (debited p v (balance acc)),
         transactions := transactions acc
            @ (if v = p_userId p then [Debit (p_amount p) (p_toUserId p) d1] else [])
            @ (if v = p_toUserId p then [Credit (p_amount p) (p_userId p) d2] else [])\<rparr>"

text \<open>
  No account is stored under the empty userId, and every session names a stored
  account.
\<close>

definition sessions_valid :: "state \<Rightarrow> bool" where
  "sessions_valid s \<longleftrightarrow>
     accounts s [] = None \<and> (\<forall>t u. sessions s t = Some u \<longrightarrow> accounts s u \<noteq> None)"


text \<open>
  A request that neither registers an account with a balance below 0 (or \<open>NaN\<close>) nor
  transfers an infinite amount.
\<close>

fun admissible :: "request \<Rightarrow> bool" where
  "admissible (PostRegister userId nm (Some b)) = js_le (Num 0) b"
| "admissible (PostTransfer token toUserId (Some a) d1 d2) = (a \<noteq> PosInf)"
| "admissible _ = True"


text \<open>Every balance in the state is at least 0.\<close>

definition balances_nonneg :: "state \<Rightarrow> bool" where
  "balances_nonneg s \<longleftrightarrow> (\<forall>u acc. accounts s u = Some acc \<longrightarrow> js_le (Num 0) (balance acc))"

text \<open>
  A state for the examples: two accounts registered, one with an explicit balance and
  one with the default, and one login for each.
\<close>

definition scenario :: state where
  "scenario = snd (run init
     [PostRegister (Some ''alice'') (Some ''Alice'') (Some (Num 1000)),
      PostRegister (Some ''bob'') (Some ''Bob'') None,
      PostLogin (Some ''alice'') ''a1'',
      PostLogin (Some ''bob'') ''b1''])"

text \<open>
  A state with balances where doubles are no longer exact: \<open>2 ^ 53\<close> for two accounts
  and \<open>2 ^ 53 + 2\<close> for a third.
\<close>

definition big :: state where
  "big = snd (run init
     [PostRegister (Some ''alice'') (Some ''Alice'') (Some (Num 9007199254740992)),
      PostRegister (Some ''bob'') (Some ''Bob'') (Some (Num 9007199254740992)),
      PostRegister (Some ''carol'') (Some ''Carol'') (Some (Num 9007199254740994)),
      PostLogin (Some ''alice'') ''a1'',
      PostLogin (Some ''carol'') ''c1''])"

text \<open>The balance stored under a userId, if any.\<close>

definition balance_of :: "state \<Rightarrow> string \<Rightarrow> number option" where
  "balance_of s u = map_option balance (accounts s u)"

section \<open>Facts about the handlers\<close>

subsection \<open>Numbers\<close>

lemma scale_small: "m < 9007199254740992 \<Longrightarrow> scale m = 0"
  by (simp add: scale.simps)

lemma round_nat_exact:
  assumes "m \<le> 9007199254740992"
  shows "round_nat m = m"
proof (cases "m = 9007199254740992")
  case False
  with assms have "scale m = 0" by (simp add: scale_small)
  then show ?thesis by (simp add: round_nat_def)
next
  case True
  have "scale 9007199254740992 = Suc 0"
    by (simp add: scale.simps[of 9007199254740992] scale_small)
  with True show ?thesis by (simp add: round_nat_def)
qed

text \<open>Integers of magnitude at most \<open>2 ^ 53\<close> are doubles.\<close>

lemma round_double_exact:
  assumes "\<bar>n\<bar> \<le> 9007199254740992"
  shows "round_double n = Num n"
proof -
  from assms have "nat \<bar>n\<bar> \<le> 9007199254740992" by simp
  then have r: "round_nat (nat \<bar>n\<bar>) = nat \<bar>n\<bar>" by (rule round_nat_exact)
  have "\<bar>n\<bar> < 2 ^ 1024" using assms by simp
  then show ?thesis unfolding round_double_def r Let_def by auto
qed

lemma round_double_nonneg:
  "0 \<le> n \<Longrightarrow> js_le (Num 0) (round_double n)"
  by (simp add: round_double_def Let_def)

text \<open>\<open>2 ^ 53 + 1\<close> is not a double: it lies halfway and rounds to the even \<open>2 ^ 53\<close>.\<close>

lemma round_nat_up: "round_nat 9007199254740993 = 9007199254740992"
proof -
  have s: "scale 9007199254740993 = Suc 0"
    by (simp add: scale.simps[of 9007199254740993] scale_small)
  show ?thesis by (simp add: round_nat_def s)
qed

lemma round_double_up: "round_double 9007199254740993 = Num 9007199254740992"
  by (simp add: round_double_def round_nat_up)

lemma js_positive_iff: "\<not> js_lt (Num 0) a \<longleftrightarrow> js_not a \<or> js_le a (Num 0)"
  by (cases a) (auto simp: js_not_def)

lemma js_add_exact:
  "\<bar>x + n\<bar> \<le> 9007199254740992 \<Longrightarrow> js_add (Num x) (Num n) = Num (x + n)"
  by (simp add: round_double_exact)

lemma js_sub_exact:
  "\<bar>x - n\<bar> \<le> 9007199254740992 \<Longrightarrow> js_sub (Num x) (Num n) = Num (x - n)"
  by (simp add: js_sub_def round_double_exact)

subsection \<open>Authentication and the two parts of a transfer\<close>

lemma authenticate_Inr_iff:
  "authenticate s token = Inr u \<longleftrightarrow> (\<exists>t. token = Some t \<and> t \<noteq> [] \<and> sessions s t = Some u)"
  by (auto simp: authenticate_def split: option.splits)

lemma authenticate_Inl:
  "authenticate s token = Inl e \<Longrightarrow> e = unauthorized"
  by (auto simp: authenticate_def split: option.splits if_splits)

lemma transfer_check_Inr:
  "transfer_check s token toUserId amt = Inr p \<longleftrightarrow>
     (\<exists>acc. authenticate s token = Inr (p_userId p) \<and> toUserId = Some (p_toUserId p) \<and> amt = Some (p_amount p)
        \<and> p_toUserId p \<noteq> [] \<and> js_lt (Num 0) (p_amount p) \<and> accounts s (p_toUserId p) \<noteq> None
        \<and> accounts s (p_userId p) = Some acc \<and> \<not> js_lt (balance acc) (p_amount p))"
  by (cases p) (auto simp: transfer_check_def js_positive_iff[symmetric] split: option.splits sum.splits)

lemma debit_credit_other:
  "v \<noteq> p_userId p \<Longrightarrow> v \<noteq> p_toUserId p \<Longrightarrow> debit_credit p d1 d2 v = (\<lambda>acc. acc)"
  by (simp add: fun_eq_iff debit_credit_def debited_def credited_def)

lemma transfer_commit_ok:
  assumes "accounts s (p_userId p) \<noteq> None" "accounts s (p_toUserId p) \<noteq> None"
  shows "transfer_commit s p d1 d2 =
     (Inr (TransferSuccessful (p_amount p)),
      s\<lparr>accounts := (\<lambda>v. map_option (debit_credit p d1 d2 v) (accounts s v))\<rparr>)"
proof -
  obtain a b where a: "accounts s (p_userId p) = Some a" and b: "accounts s (p_toUserId p) = Some b"
    using assms by auto
  have "(\<lambda>v. map_option (debit_credit p d1 d2 v) (accounts s v)) =
        (if p_toUserId p = p_userId p
         then (accounts s)(p_userId p \<mapsto> debit_credit p d1 d2 (p_userId p) a)
         else (accounts s)(p_userId p \<mapsto> debit_credit p d1 d2 (p_userId p) a,
                           p_toUserId p \<mapsto> debit_credit p d1 d2 (p_toUserId p) b))"
    using a b by (auto simp: fun_eq_iff debit_credit_other option.map_ident)
  then show ?thesis
    using a b by (auto simp: transfer_commit_def debit_credit_def debited_def credited_def Let_def)
qed

lemma transfer_commit_sessions:
  "sessions (snd (transfer_commit s p d1 d2)) = sessions s"
  by (simp add: transfer_commit_def Let_def split: option.splits)

lemma transfer_commit_requestCount:
  "requestCount (snd (transfer_commit s p d1 d2)) = requestCount s"
  by (simp add: transfer_commit_def Let_def split: option.splits)

lemma transfer_commit_None:
  "accounts (snd (transfer_commit s p d1 d2)) v = None \<longleftrightarrow> accounts s v = None"
  by (auto simp: transfer_commit_def Let_def split: option.splits if_splits)

lemma transfer_ok:
  assumes "transfer s token toUserId amt d1 d2 = (Inr r, s')"
  shows "\<exists>p. transfer_check s token toUserId amt = Inr p \<and> r = TransferSuccessful (p_amount p)
            \<and> s' = s\<lparr>accounts := (\<lambda>v. map_option (debit_credit p d1 d2 v) (accounts s v))\<rparr>"
proof -
  from assms obtain p where p: "transfer_check s token toUserId amt = Inr p"
    by (auto simp: transfer_def split: sum.splits)
  then have ex: "accounts s (p_userId p) \<noteq> None" "accounts s (p_toUserId p) \<noteq> None"
    by (auto simp: transfer_check_Inr)
  from assms p have "transfer_commit s p d1 d2 = (Inr r, s')"
    by (simp add: transfer_def)
  with transfer_commit_ok[OF ex, of d1 d2] p show ?thesis by auto
qed

lemma transfer_fail:
  assumes "fst (transfer s token toUserId amt d1 d2) = Inl e"
  shows "snd (transfer s token toUserId amt d1 d2) = s"
proof (cases "transfer_check s token toUserId amt")
  case (Inl e')
  then show ?thesis by (simp add: transfer_def)
next
  case (Inr p)
  then have ex: "accounts s (p_userId p) \<noteq> None" "accounts s (p_toUserId p) \<noteq> None"
    by (auto simp: transfer_check_Inr)
  from assms Inr transfer_commit_ok[OF ex, of d1 d2] show ?thesis
    by (simp add: transfer_def)
qed

subsection \<open>Handlers that only read\<close>

lemma getAccounts_state: "snd (getAccounts s token) = s"
  by (simp add: getAccounts_def split: sum.splits)

lemma getBalance_state: "snd (getBalance s token fault) = s"
  by (simp add: getBalance_def split: sum.splits option.splits)

lemma statement_state: "snd (statement s token) = s"
  by (simp add: statement_def split: sum.splits option.splits)

lemma getMetrics_state: "snd (getMetrics s) = s"
  by (simp add: getMetrics_def)

subsection \<open>The middleware and lists of requests\<close>

lemma rateLimit_eq:
  "rateLimit s = (Suc (requestCount s) mod 10 = 0, s\<lparr>requestCount := Suc (requestCount s)\<rparr>)"
  by (simp add: rateLimit_def Let_def)

lemma handle_eq:
  "handle s req =
     (if Suc (requestCount s) mod 10 = 0 then (Inl rate_limit, s\<lparr>requestCount := Suc (requestCount s)\<rparr>)
      else route (s\<lparr>requestCount := Suc (requestCount s)\<rparr>) req)"
  by (simp add: handle_def rateLimit_eq)

lemma snd_run_Cons: "snd (run s (req # reqs)) = snd (run (snd (handle s req)) reqs)"
  by (simp split: prod.splits)

lemma fst_run_Cons: "fst (run s (req # reqs)) = fst (handle s req) # fst (run (snd (handle s req)) reqs)"
  by (simp split: prod.splits)

subsection \<open>Sessions name stored accounts\<close>

lemma sessions_valid_register:
  "sessions_valid s \<Longrightarrow> sessions_valid (snd (register s userId nm bal))"
  by (auto simp: sessions_valid_def register_def Let_def split: option.splits)

lemma sessions_valid_login:
  "sessions_valid s \<Longrightarrow> sessions_valid (snd (login s userId rnd))"
  by (auto simp: sessions_valid_def login_def Let_def split: option.splits)

lemma sessions_valid_loan:
  "sessions_valid s \<Longrightarrow> sessions_valid (snd (loan s token amt d))"
  by (auto simp: sessions_valid_def loan_def split: option.splits sum.splits)

lemma sessions_valid_transfer_commit:
  "sessions_valid s \<Longrightarrow> sessions_valid (snd (transfer_commit s p d1 d2))"
  by (simp add: sessions_valid_def transfer_commit_sessions transfer_commit_None)

lemma sessions_valid_transfer:
  "sessions_valid s \<Longrightarrow> sessions_valid (snd (transfer s token toUserId amt d1 d2))"
  by (simp add: transfer_def sessions_valid_transfer_commit split: sum.splits)

lemma sessions_valid_route:
  "sessions_valid s \<Longrightarrow> sessions_valid (snd (route s req))"
  by (cases req)
     (simp_all add: sessions_valid_register sessions_valid_login sessions_valid_loan
        sessions_valid_transfer getAccounts_state getBalance_state statement_state getMetrics_state)

lemma sessions_valid_requestCount:
  "sessions_valid (s\<lparr>requestCount := n\<rparr>) = sessions_valid s"
  by (simp add: sessions_valid_def)

lemma sessions_valid_handle:
  "sessions_valid s \<Longrightarrow> sessions_valid (snd (handle s req))"
  by (simp add: handle_eq sessions_valid_route sessions_valid_requestCount)

lemma sessions_valid_init: "sessions_valid init"
  by (simp add: sessions_valid_def init_def)

lemma running_sessions_valid: "running s W \<Longrightarrow> sessions_valid s"
proof (induction rule: running.induct)
  case running_init
  show ?case by (rule sessions_valid_init)
next
  case (running_handle s W req)
  then show ?case by (simp add: sessions_valid_handle)
next
  case (running_suspend s W s' token toUserId amt p)
  then show ?case by (auto simp: rateLimit_eq sessions_valid_requestCount)
next
  case (running_resume s W p d1 d2)
  then show ?case by (simp add: sessions_valid_transfer_commit)
qed

lemma reachable_sessions_valid: "reachable s \<Longrightarrow> sessions_valid s"
  by (auto simp: reachable_def dest: running_sessions_valid)

lemma reachable_init: "reachable init"
  unfolding reachable_def using running_init by blast

lemma reachable_handle: "reachable s \<Longrightarrow> reachable (snd (handle s req))"
  unfolding reachable_def using running_handle by blast

lemma reachable_run: "reachable s \<Longrightarrow> reachable (snd (run s reqs))"
proof (induction reqs arbitrary: s)
  case Nil
  then show ?case by simp
next
  case (Cons req reqs)
  then show ?case unfolding snd_run_Cons by (simp add: reachable_handle)
qed

subsection \<open>The request counter\<close>

lemma register_requestCount: "requestCount (snd (register s userId nm bal)) = requestCount s"
  by (simp add: register_def Let_def split: option.splits)

lemma login_requestCount: "requestCount (snd (login s userId rnd)) = requestCount s"
  by (simp add: login_def Let_def split: option.splits)

lemma loan_requestCount: "requestCount (snd (loan s token amt d)) = requestCount s"
  by (simp add: loan_def split: option.splits sum.splits)

lemma transfer_requestCount: "requestCount (snd (transfer s token toUserId amt d1 d2)) = requestCount s"
  by (simp add: transfer_def transfer_commit_requestCount split: sum.splits)

lemma route_requestCount: "requestCount (snd (route s req)) = requestCount s"
  by (cases req)
     (simp_all add: register_requestCount login_requestCount loan_requestCount transfer_requestCount
        getAccounts_state getBalance_state statement_state getMetrics_state)

lemma handle_requestCount: "requestCount (snd (handle s req)) = Suc (requestCount s)"
  by (simp add: handle_eq route_requestCount)

lemma register_not_rate_limit: "fst (register s userId nm bal) \<noteq> Inl rate_limit"
  by (simp add: register_def Let_def split: option.splits)

lemma login_not_rate_limit: "fst (login s userId rnd) \<noteq> Inl rate_limit"
  by (simp add: login_def Let_def split: option.splits)

lemma authenticate_not_rate_limit: "authenticate s token \<noteq> Inl rate_limit"
  by (simp add: authenticate_def split: option.splits)

lemma getAccounts_not_rate_limit: "fst (getAccounts s token) \<noteq> Inl rate_limit"
  using authenticate_not_rate_limit[of s token]
  by (auto simp: getAccounts_def split: sum.splits)

lemma getBalance_not_rate_limit: "fst (getBalance s token fault) \<noteq> Inl rate_limit"
  using authenticate_not_rate_limit[of s token]
  by (auto simp: getBalance_def split: sum.splits option.splits)

lemma loan_not_rate_limit: "fst (loan s token amt d) \<noteq> Inl rate_limit"
  using authenticate_not_rate_limit[of s token]
  by (auto simp: loan_def split: sum.splits option.splits)

lemma statement_not_rate_limit: "fst (statement s token) \<noteq> Inl rate_limit"
  using authenticate_not_rate_limit[of s token]
  by (auto simp: statement_def split: sum.splits option.splits)

lemma transfer_check_not_rate_limit: "transfer_check s token toUserId amt \<noteq> Inl rate_limit"
  using authenticate_not_rate_limit[of s token]
  by (auto simp: transfer_check_def split: sum.splits option.splits)

lemma transfer_commit_not_rate_limit: "fst (transfer_commit s p d1 d2) \<noteq> Inl rate_limit"
  by (simp add: transfer_commit_def Let_def split: option.splits)

lemma transfer_not_rate_limit: "fst (transfer s token toUserId amt d1 d2) \<noteq> Inl rate_limit"
  using transfer_check_not_rate_limit[of s token toUserId amt]
  by (auto simp: transfer_def transfer_commit_not_rate_limit split: sum.splits)

lemma route_not_rate_limit: "fst (route s req) \<noteq> Inl rate_limit"
  by (cases req)
     (simp_all add: register_not_rate_limit login_not_rate_limit getAccounts_not_rate_limit
        getBalance_not_rate_limit transfer_not_rate_limit loan_not_rate_limit
        statement_not_rate_limit getMetrics_def)

lemma handle_rate_limit:
  "fst (handle s req) = Inl rate_limit \<longleftrightarrow> Suc (requestCount s) mod 10 = 0"
  by (simp add: handle_eq route_not_rate_limit)

lemma run_requestCount: "requestCount (snd (run s reqs)) = requestCount s + length reqs"
proof (induction reqs arbitrary: s)
  case Nil
  then show ?case by simp
next
  case (Cons req reqs)
  then show ?case unfolding snd_run_Cons by (simp add: handle_requestCount)
qed

lemma run_nth_rate_limit:
  "i < length reqs \<Longrightarrow>
     (fst (run s reqs) ! i = Inl rate_limit) = ((requestCount s + i + 1) mod 10 = 0)"
proof (induction reqs arbitrary: s i)
  case Nil
  then show ?case by simp
next
  case (Cons req reqs)
  show ?case
  proof (cases i)
    case 0
    then show ?thesis unfolding fst_run_Cons by (simp add: handle_rate_limit)
  next
    case (Suc j)
    with Cons.prems have "j < length reqs" by simp
    from Cons.IH[OF this, of "snd (handle s req)"] Suc show ?thesis
      unfolding fst_run_Cons by (simp add: handle_requestCount)
  qed
qed

subsection \<open>Accounts are never removed\<close>

lemma register_stored: "accounts (snd (register s userId nm bal)) v = None \<Longrightarrow> accounts s v = None"
  by (simp add: register_def Let_def split: option.splits if_splits)

lemma login_stored: "accounts (snd (login s userId rnd)) v = None \<Longrightarrow> accounts s v = None"
  by (simp add: login_def Let_def split: option.splits if_splits)

lemma loan_stored: "accounts (snd (loan s token amt d)) v = None \<Longrightarrow> accounts s v = None"
  by (simp add: loan_def split: option.splits sum.splits if_splits)

lemma transfer_stored:
  "accounts (snd (transfer s token toUserId amt d1 d2)) v = None \<Longrightarrow> accounts s v = None"
  by (simp add: transfer_def transfer_commit_None split: sum.splits)

lemma route_stored: "accounts (snd (route s req)) v = None \<Longrightarrow> accounts s v = None"
proof (cases req)
  case (PostRegister userId nm bal)
  assume "accounts (snd (route s req)) v = None"
  with PostRegister show ?thesis using register_stored[of s userId nm bal v] by simp
next
  case (PostLogin userId rnd)
  assume "accounts (snd (route s req)) v = None"
  with PostLogin show ?thesis using login_stored[of s userId rnd v] by simp
next
  case (PostTransfer token toUserId amt d1 d2)
  assume "accounts (snd (route s req)) v = None"
  with PostTransfer show ?thesis using transfer_stored[of s token toUserId amt d1 d2 v] by simp
next
  case (PostLoan token amt d)
  assume "accounts (snd (route s req)) v = None"
  with PostLoan show ?thesis using loan_stored[of s token amt d v] by simp
qed (simp_all add: getAccounts_state getBalance_state statement_state getMetrics_state)

lemma handle_stored: "accounts (snd (handle s req)) v = None \<Longrightarrow> accounts s v = None"
  using route_stored[of "s\<lparr>requestCount := Suc (requestCount s)\<rparr>" req v]
  by (simp add: handle_eq split: if_splits)

lemma running_waiting_stored:
  "running s W \<Longrightarrow> p \<in> set W \<Longrightarrow>
     accounts s (p_userId p) \<noteq> None \<and> accounts s (p_toUserId p) \<noteq> None"
proof (induction arbitrary: p rule: running.induct)
  case running_init
  then show ?case by simp
next
  case (running_handle s W req)
  from running_handle.IH[OF running_handle.prems]
  have "accounts s (p_userId p) \<noteq> None" "accounts s (p_toUserId p) \<noteq> None" by simp_all
  with handle_stored[of s req "p_userId p"] handle_stored[of s req "p_toUserId p"]
  show ?case by fastforce
next
  case (running_suspend s W s' token toUserId amt q)
  from running_suspend.hyps(2) have s': "accounts s' = accounts s"
    by (auto simp: rateLimit_eq)
  show ?case
  proof (cases "p = q")
    case True
    from running_suspend.hyps(3) have "accounts s' (p_toUserId q) \<noteq> None" "accounts s' (p_userId q) \<noteq> None"
      unfolding transfer_check_Inr by auto
    with True show ?thesis by simp
  next
    case False
    with running_suspend.prems have "p \<in> set W" by simp
    from running_suspend.IH[OF this] s' show ?thesis by simp
  qed
next
  case (running_resume s W q d1 d2)
  from running_resume.prems have "p \<in> set W"
    using set_remove1_subset[of q W] by blast
  from running_resume.IH[OF this] show ?case by (simp add: transfer_commit_None)
qed

subsection \<open>Finitely many accounts\<close>

text \<open>The sum of all balances is a finite sum in every reachable state.\<close>

lemma register_dom:
  "dom (accounts (snd (register s userId nm bal))) \<subseteq> insert (case userId of None \<Rightarrow> [] | Some u \<Rightarrow> u) (dom (accounts s))"
  by (auto simp: register_def Let_def split: option.splits if_splits)

lemma login_accounts: "accounts (snd (login s userId rnd)) = accounts s"
  by (simp add: login_def Let_def split: option.splits)

lemma loan_dom: "dom (accounts (snd (loan s token amt d))) = dom (accounts s)"
  by (auto simp: loan_def split: option.splits sum.splits if_splits)

lemma transfer_commit_dom: "dom (accounts (snd (transfer_commit s p d1 d2))) = dom (accounts s)"
  using transfer_commit_None[of s p d1 d2] by (auto simp: dom_def)

lemma transfer_dom: "dom (accounts (snd (transfer s token toUserId amt d1 d2))) = dom (accounts s)"
  by (simp add: transfer_def transfer_commit_dom split: sum.splits)

lemma route_finite:
  "finite (dom (accounts s)) \<Longrightarrow> finite (dom (accounts (snd (route s req))))"
proof (cases req)
  case (PostRegister userId nm bal)
  assume "finite (dom (accounts s))"
  then have "finite (insert (case userId of None \<Rightarrow> [] | Some u \<Rightarrow> u) (dom (accounts s)))" by simp
  from finite_subset[OF register_dom this] PostRegister show ?thesis by simp
qed (simp_all add: login_accounts loan_dom transfer_dom
       getAccounts_state getBalance_state statement_state getMetrics_state)

lemma handle_finite:
  "finite (dom (accounts s)) \<Longrightarrow> finite (dom (accounts (snd (handle s req))))"
  using route_finite[of "s\<lparr>requestCount := Suc (requestCount s)\<rparr>" req]
  by (simp add: handle_eq)

lemma running_finite: "running s W \<Longrightarrow> finite (dom (accounts s))"
proof (induction rule: running.induct)
  case running_init
  show ?case by (simp add: init_def)
next
  case (running_handle s W req)
  then show ?case by (simp add: handle_finite)
next
  case (running_suspend s W s' token toUserId amt p)
  then show ?case by (auto simp: rateLimit_eq)
next
  case (running_resume s W p d1 d2)
  then show ?case by (simp add: transfer_commit_dom)
qed

lemma reachable_finite: "reachable s \<Longrightarrow> finite (dom (accounts s))"
  by (auto simp: reachable_def dest: running_finite)

subsection \<open>Sessions change only at a login\<close>

lemma register_sessions: "sessions (snd (register s userId nm bal)) = sessions s"
  by (simp add: register_def Let_def split: option.splits)

lemma loan_sessions: "sessions (snd (loan s token amt d)) = sessions s"
  by (simp add: loan_def split: option.splits sum.splits)

lemma transfer_sessions: "sessions (snd (transfer s token toUserId amt d1 d2)) = sessions s"
  by (simp add: transfer_def transfer_commit_sessions split: sum.splits)

lemma login_sessions:
  "fst (login s userId rnd) \<noteq> Inr (Token tok) \<Longrightarrow> sessions (snd (login s userId rnd)) tok = sessions s tok"
  by (auto simp: login_def Let_def split: option.splits if_splits)

lemma route_sessions:
  "fst (route s req) \<noteq> Inr (Token tok) \<Longrightarrow> sessions (snd (route s req)) tok = sessions s tok"
  by (cases req)
     (simp_all add: register_sessions login_sessions loan_sessions transfer_sessions
        getAccounts_state getBalance_state statement_state getMetrics_state)

lemma handle_sessions:
  "fst (handle s req) \<noteq> Inr (Token tok) \<Longrightarrow> sessions (snd (handle s req)) tok = sessions s tok"
  by (simp add: handle_eq route_sessions split: if_splits)

lemma run_sessions:
  "Inr (Token tok) \<notin> set (fst (run s reqs)) \<Longrightarrow> sessions (snd (run s reqs)) tok = sessions s tok"
proof (induction reqs arbitrary: s)
  case Nil
  then show ?case by simp
next
  case (Cons req reqs)
  from Cons.prems have 1: "fst (handle s req) \<noteq> Inr (Token tok)"
    and 2: "Inr (Token tok) \<notin> set (fst (run (snd (handle s req)) reqs))"
    unfolding fst_run_Cons by auto
  from Cons.IH[OF 2] handle_sessions[OF 1] show ?case unfolding snd_run_Cons by simp
qed

lemma unauthorized_everywhere:
  assumes "authenticate s token = Inl unauthorized"
  shows "getAccounts s token = (Inl unauthorized, s)"
    and "getBalance s token fault = (Inl unauthorized, s)"
    and "transfer s token toUserId amt d1 d2 = (Inl unauthorized, s)"
    and "loan s token amt d = (Inl unauthorized, s)"
    and "statement s token = (Inl unauthorized, s)"
  using assms
  by (simp_all add: getAccounts_def getBalance_def transfer_def transfer_check_def loan_def statement_def)


subsection \<open>The example states\<close>

lemma scenario_eq:
  "scenario =
     \<lparr>accounts = [''alice'' \<mapsto> \<lparr>name = ''Alice'', balance = Num 1000, transactions = []\<rparr>,
                  ''bob'' \<mapsto> \<lparr>name = ''Bob'', balance = Num 1000, transactions = []\<rparr>],
      sessions = [''token_a1'' \<mapsto> ''alice'', ''token_b1'' \<mapsto> ''bob''],
      requestCount = 4\<rparr>"
  unfolding scenario_def snd_run_Cons
  by (simp add: handle_eq register_def login_def init_def Let_def)

lemma reachable_scenario: "reachable scenario"
  unfolding scenario_def by (rule reachable_run[OF reachable_init])

lemma total_balance_scenario: "total_balance scenario = 2000"
  by (simp add: scenario_eq total_balance_def)

lemma transfer_scenario:
  "transfer scenario (Some ''token_a1'') (Some ''bob'') (Some (Num 500)) 10 20 =
     (Inr (TransferSuccessful (Num 500)),
      scenario\<lparr>accounts :=
        [''alice'' \<mapsto> \<lparr>name = ''Alice'', balance = Num 500, transactions = [Debit (Num 500) ''bob'' 10]\<rparr>,
         ''bob'' \<mapsto> \<lparr>name = ''Bob'', balance = Num 1500, transactions = [Credit (Num 500) ''alice'' 20]\<rparr>]\<rparr>)"
  by (simp add: scenario_eq transfer_def transfer_check_def authenticate_def transfer_commit_def
        Let_def js_not_def js_sub_def round_double_exact)

lemma replies_scenario:
  "fst (run init
     [PostRegister (Some ''alice'') (Some ''Alice'') (Some (Num 1000)),
      PostRegister (Some ''bob'') (Some ''Bob'') None,
      PostLogin (Some ''alice'') ''a1'',
      PostLogin (Some ''bob'') ''b1''])
   = [Inr (Registered ''alice''), Inr (Registered ''bob''), Inr (Token ''token_a1''), Inr (Token ''token_b1'')]"
  unfolding fst_run_Cons snd_run_Cons
  by (simp add: handle_eq register_def login_def init_def Let_def)

lemma big_eq:
  "big =
     \<lparr>accounts = [''alice'' \<mapsto> \<lparr>name = ''Alice'', balance = Num 9007199254740992, transactions = []\<rparr>,
                  ''bob'' \<mapsto> \<lparr>name = ''Bob'', balance = Num 9007199254740992, transactions = []\<rparr>,
                  ''carol'' \<mapsto> \<lparr>name = ''Carol'', balance = Num 9007199254740994, transactions = []\<rparr>],
      sessions = [''token_a1'' \<mapsto> ''alice'', ''token_c1'' \<mapsto> ''carol''],
      requestCount = 5\<rparr>"
  unfolding big_def snd_run_Cons
  by (simp add: handle_eq register_def login_def init_def Let_def)

lemma reachable_big: "reachable big"
  unfolding big_def by (rule reachable_run[OF reachable_init])

lemma transfer_big:
  "transfer big (Some ''token_a1'') (Some ''bob'') (Some (Num 1)) 10 20 =
     (Inr (TransferSuccessful (Num 1)),
      big\<lparr>accounts :=
        [''alice'' \<mapsto> \<lparr>name = ''Alice'', balance = Num 9007199254740991, transactions = [Debit (Num 1) ''bob'' 10]\<rparr>,
         ''bob'' \<mapsto> \<lparr>name = ''Bob'', balance = Num 9007199254740992, transactions = [Credit (Num 1) ''alice'' 20]\<rparr>,
         ''carol'' \<mapsto> \<lparr>name = ''Carol'', balance = Num 9007199254740994, transactions = []\<rparr>]\<rparr>)"
  by (simp add: big_eq transfer_def transfer_check_def authenticate_def transfer_commit_def
        Let_def js_not_def js_sub_def round_double_exact round_double_up fun_upd_twist)

subsection \<open>Exact arithmetic on a safe ledger\<close>











subsection \<open>Balances that stay non-negative\<close>

lemma js_add_nonneg:
  "js_le (Num 0) b \<Longrightarrow> 0 \<le> n \<Longrightarrow> js_le (Num 0) (js_add b (Num n))"
  by (cases b) (simp_all add: round_double_nonneg)

lemma js_sub_nonneg:
  "js_le (Num 0) b \<Longrightarrow> \<not> js_lt b (Num n) \<Longrightarrow> js_le (Num 0) (js_sub b (Num n))"
  by (cases b) (simp_all add: js_sub_def round_double_nonneg)

lemma finite_positive:
  "js_lt (Num 0) a \<Longrightarrow> a \<noteq> PosInf \<Longrightarrow> \<exists>n. a = Num n \<and> 0 < n"
  by (cases a) simp_all

lemma balances_nonneg_register:
  "balances_nonneg s \<Longrightarrow> admissible (PostRegister userId nm bal) \<Longrightarrow>
   balances_nonneg (snd (register s userId nm bal))"
  by (cases bal) (auto simp: balances_nonneg_def register_def Let_def split: option.splits)

lemma balances_nonneg_login:
  "balances_nonneg s \<Longrightarrow> balances_nonneg (snd (login s userId rnd))"
  by (auto simp: balances_nonneg_def login_def Let_def split: option.splits)

lemma balances_nonneg_loan:
  assumes "balances_nonneg s"
  shows "balances_nonneg (snd (loan s token amt d))"
proof (cases "fst (loan s token amt d)")
  case (Inl e)
  then have "snd (loan s token amt d) = s"
    by (auto simp: loan_def split: sum.splits option.splits if_splits)
  with assms show ?thesis by simp
next
  case (Inr r)
  then obtain u a acc where a0: "amt = Some a" "\<not> js_not a" "\<not> js_le a (Num 0)" "\<not> js_lt (Num 10000) a"
    and acc: "accounts s u = Some acc"
    and s': "snd (loan s token amt d) = s\<lparr>accounts := (accounts s)(u \<mapsto>
               acc\<lparr>balance := js_add (balance acc) a, transactions := transactions acc @ [Loan a d]\<rparr>)\<rparr>"
    by (auto simp: loan_def split: sum.splits option.splits if_splits)
  from a0 js_positive_iff[of a] have a: "amt = Some a" "js_lt (Num 0) a" "\<not> js_lt (Num 10000) a"
    by auto
  from a(2,3) have "a \<noteq> PosInf" by (cases a) simp_all
  from finite_positive[OF a(2) this] obtain n where n: "a = Num n" "0 < n" by blast
  from assms acc have "js_le (Num 0) (balance acc)" by (auto simp: balances_nonneg_def)
  from js_add_nonneg[OF this, of n] n have "js_le (Num 0) (js_add (balance acc) a)" by simp
  with assms show ?thesis unfolding s' by (auto simp: balances_nonneg_def)
qed

lemma balances_nonneg_transfer:
  assumes "balances_nonneg s" and fin: "\<forall>a. amt = Some a \<longrightarrow> a \<noteq> PosInf"
  shows "balances_nonneg (snd (transfer s token toUserId amt d1 d2))"
proof (cases "fst (transfer s token toUserId amt d1 d2)")
  case (Inl e)
  with assms show ?thesis by (simp add: transfer_fail)
next
  case (Inr r)
  then have "transfer s token toUserId amt d1 d2 = (Inr r, snd (transfer s token toUserId amt d1 d2))"
    by (simp add: prod_eq_iff)
  from transfer_ok[OF this] obtain p where
     p: "transfer_check s token toUserId amt = Inr p"
     and s': "snd (transfer s token toUserId amt d1 d2)
               = s\<lparr>accounts := (\<lambda>v. map_option (debit_credit p d1 d2 v) (accounts s v))\<rparr>"
    by blast
  from p obtain sender where sender: "accounts s (p_userId p) = Some sender"
    and enough: "\<not> js_lt (balance sender) (p_amount p)" and pos: "js_lt (Num 0) (p_amount p)"
    and amt: "amt = Some (p_amount p)"
    by (auto simp: transfer_check_Inr)
  from fin amt have "p_amount p \<noteq> PosInf" by simp
  from finite_positive[OF pos this] obtain n where n: "p_amount p = Num n" "0 < n" by blast
  show ?thesis unfolding s' balances_nonneg_def
  proof (intro allI impI)
    fix u x
    assume "accounts (s\<lparr>accounts := (\<lambda>v. map_option (debit_credit p d1 d2 v) (accounts s v))\<rparr>) u = Some x"
    then obtain y where y: "accounts s u = Some y" and x: "x = debit_credit p d1 d2 u y"
      by auto
    from assms(1) y have y0: "js_le (Num 0) (balance y)" by (auto simp: balances_nonneg_def)
    have d: "js_le (Num 0) (debited p u (balance y))"
    proof (cases "u = p_userId p")
      case True
      with y sender have "y = sender" by simp
      with enough n have "\<not> js_lt (balance y) (Num n)" by simp
      from js_sub_nonneg[OF y0 this] True n show ?thesis by (simp add: debited_def)
    next
      case False
      with y0 show ?thesis by (simp add: debited_def)
    qed
    from js_add_nonneg[OF d, of n] n d have "js_le (Num 0) (credited p u (debited p u (balance y)))"
      by (auto simp: credited_def)
    then show "js_le (Num 0) (balance x)" unfolding x by (simp add: debit_credit_def)
  qed
qed

lemma balances_nonneg_route:
  "balances_nonneg s \<Longrightarrow> admissible req \<Longrightarrow> balances_nonneg (snd (route s req))"
proof (cases req)
  case (PostTransfer token toUserId amt d1 d2)
  assume b: "balances_nonneg s" and a: "admissible req"
  from a PostTransfer have "\<forall>a. amt = Some a \<longrightarrow> a \<noteq> PosInf" by (cases amt) simp_all
  from balances_nonneg_transfer[OF b this] PostTransfer show ?thesis by simp
qed (simp_all add: balances_nonneg_register balances_nonneg_login balances_nonneg_loan
        getAccounts_state getBalance_state statement_state getMetrics_state)

lemma balances_nonneg_requestCount:
  "balances_nonneg (s\<lparr>requestCount := n\<rparr>) = balances_nonneg s"
  by (simp add: balances_nonneg_def)

lemma balances_nonneg_handle:
  "balances_nonneg s \<Longrightarrow> admissible req \<Longrightarrow> balances_nonneg (snd (handle s req))"
  by (simp add: handle_eq balances_nonneg_route balances_nonneg_requestCount)

lemma balances_nonneg_run:
  "balances_nonneg s \<Longrightarrow> \<forall>r\<in>set reqs. admissible r \<Longrightarrow> balances_nonneg (snd (run s reqs))"
proof (induction reqs arbitrary: s)
  case Nil
  then show ?case by simp
next
  case (Cons req reqs)
  then show ?case unfolding snd_run_Cons by (simp add: balances_nonneg_handle)
qed

text \<open>
  An infinite amount sent from an infinite balance leaves \<open>NaN\<close>: line 173 lets it pass
  (\<open>Infinity < Infinity\<close> is false) and line 179 computes \<open>Infinity - Infinity\<close>.
\<close>

lemma infinite_transfer_NaN:
  "balance_of (snd (run init
     [PostRegister (Some ''alice'') (Some ''Alice'') (Some PosInf),
      PostRegister (Some ''bob'') (Some ''Bob'') None,
      PostLogin (Some ''alice'') ''a1'',
      PostTransfer (Some ''token_a1'') (Some ''bob'') (Some PosInf) 10 20])) ''alice'' = Some NaN"
  unfolding snd_run_Cons
  by (simp add: handle_eq register_def login_def init_def Let_def transfer_def transfer_check_def
        authenticate_def transfer_commit_def js_not_def js_sub_def balance_of_def)

subsection \<open>Transfers that overlap\<close>

lemma fire_Start:
  assumes "authenticate (store L) token = Inr u" "t \<noteq> []" "js_lt (Num 0) a"
    "accounts (store L) t \<noteq> None" "accounts (store L) u = Some x"
  shows "fire L (Start i token (Some t) (Some a)) =
     (if js_lt (balance x) a then L\<lparr>replies := (replies L)(i \<mapsto> Inl insufficient_funds)\<rparr>
      else L\<lparr>waiting := (waiting L)(i \<mapsto> \<lparr>p_userId = u, p_toUserId = t, p_amount = a\<rparr>)\<rparr>)"
  using assms js_positive_iff[of a] by (auto simp: transfer_check_def)

lemma fire_Resume:
  assumes "waiting L i = Some p" "accounts (store L) (p_userId p) \<noteq> None"
    "accounts (store L) (p_toUserId p) \<noteq> None"
  shows "fire L (Resume i d1 d2) =
     L\<lparr>store := (store L)\<lparr>accounts := (\<lambda>v. map_option (debit_credit p d1 d2 v) (accounts (store L) v))\<rparr>,
       waiting := (waiting L)(i := None),
       replies := (replies L)(i \<mapsto> Inr (TransferSuccessful (p_amount p)))\<rparr>"
  using assms by (simp add: transfer_commit_ok)

lemma fire_Resume_None:
  "waiting L i = None \<Longrightarrow> fire L (Resume i d1 d2) = L"
  by simp

lemma authenticate_accounts_update:
  "authenticate (s\<lparr>accounts := m\<rparr>) token = authenticate s token"
  by (simp add: authenticate_def split: option.splits)

lemma balance_debit_credit:
  "balance (debit_credit p d1 d2 v acc) = credited p v (debited p v (balance acc))"
  by (simp add: debit_credit_def)

lemma shuffles_two:
  "sched \<in> shuffles [e1, r1] [e2, r2] \<longleftrightarrow>
     sched = [e1, r1, e2, r2] \<or> sched = [e1, e2, r1, r2] \<or> sched = [e1, e2, r2, r1]
   \<or> sched = [e2, e1, r1, r2] \<or> sched = [e2, e1, r2, r1] \<or> sched = [e2, r2, e1, r1]"
  by (auto simp: image_iff)

lemma opposite_exact:
  fixes bA bB a :: int
  assumes "\<bar>bA\<bar> + \<bar>bB\<bar> \<le> 9007199254740992" "0 < a"
  shows "\<not> bA < a \<Longrightarrow> round_double (bA - a) = Num (bA - a)"
    and "\<not> bA < a \<Longrightarrow> round_double (bB + a) = Num (bB + a)"
    and "\<not> bB < a \<Longrightarrow> round_double (bB - a) = Num (bB - a)"
    and "\<not> bB < a \<Longrightarrow> round_double (bA + a) = Num (bA + a)"
    and "round_double bA = Num bA" and "round_double bB = Num bB"
  using assms by (simp_all add: round_double_exact)

lemma opposite_transfers_visible:
  assumes A: "authenticate s tokA = Inr A" and B: "authenticate s tokB = Inr B"
    and ne: "A \<noteq> B" "A \<noteq> []" "B \<noteq> []" "i \<noteq> j"
    and accA: "accounts s A = Some accA" "balance accA = Num bA"
    and accB: "accounts s B = Some accB" "balance accB = Num bB"
    and bound: "\<bar>bA\<bar> + \<bar>bB\<bar> \<le> 9007199254740992" and a: "0 < a"
    and sched: "sched \<in> shuffles [Start i tokA (Some B) (Some (Num a)), Resume i d1 d2]
                                 [Start j tokB (Some A) (Some (Num a)), Resume j d3 d4]"
    and k: "k \<le> length sched"
    and V: "V = store (foldl fire (enter s) (take k sched))"
  shows "(balance_of V A, balance_of V B)
         \<in> {(Some (Num bA), Some (Num bB)),
             (Some (Num (bA - a)), Some (Num (bB + a))),
             (Some (Num (bA + a)), Some (Num (bB - a)))}"
proof -
  note [simp] = fire_Start fire_Resume fire_Resume_None enter_def balance_of_def
    authenticate_accounts_update balance_debit_credit debited_def credited_def
    js_sub_def opposite_exact[OF bound a]
  from sched have len: "length sched = 4" by (auto simp: shuffles_two)
  with k have "k = 0 \<or> k = 1 \<or> k = 2 \<or> k = 3 \<or> k = 4" by arith
  then show ?thesis
    using A B ne accA accB a sched unfolding shuffles_two V
    by (elim disjE) (simp_all del: fire.simps)
qed


lemma opposite_transfers_others:
  assumes A: "authenticate s tokA = Inr A" and B: "authenticate s tokB = Inr B"
    and ne: "A \<noteq> B" "A \<noteq> []" "B \<noteq> []" "i \<noteq> j"
    and accA: "accounts s A = Some accA" and accB: "accounts s B = Some accB"
    and a: "0 < a"
    and sched: "sched \<in> shuffles [Start i tokA (Some B) (Some (Num a)), Resume i d1 d2]
                                 [Start j tokB (Some A) (Some (Num a)), Resume j d3 d4]"
    and k: "k \<le> length sched"
    and V: "V = store (foldl fire (enter s) (take k sched))"
    and v: "v \<noteq> A" "v \<noteq> B"
  shows "accounts V v = accounts s v"
proof -
  note [simp] = fire_Start fire_Resume fire_Resume_None enter_def
    authenticate_accounts_update debit_credit_other option.map_ident
  from sched have len: "length sched = 4" by (auto simp: shuffles_two)
  with k have "k = 0 \<or> k = 1 \<or> k = 2 \<or> k = 3 \<or> k = 4" by arith
  then show ?thesis
    using A B ne accA accB a v sched unfolding shuffles_two V
    by (elim disjE) (simp_all del: fire.simps)
qed

lemma opposite_transfers_final:
  assumes A: "authenticate s tokA = Inr A" and B: "authenticate s tokB = Inr B"
    and ne: "A \<noteq> B" "A \<noteq> []" "B \<noteq> []" "i \<noteq> j"
    and accA: "accounts s A = Some accA" "balance accA = Num bA"
    and accB: "accounts s B = Some accB" "balance accB = Num bB"
    and bound: "\<bar>bA\<bar> + \<bar>bB\<bar> \<le> 9007199254740992" and a: "0 < a"
    and sched: "sched \<in> shuffles [Start i tokA (Some B) (Some (Num a)), Resume i d1 d2]
                                 [Start j tokB (Some A) (Some (Num a)), Resume j d3 d4]"
    and L: "L = foldl fire (enter s) sched"
  shows "((replies L i = Some (Inr (TransferSuccessful (Num a))) \<and> replies L j = Some (Inr (TransferSuccessful (Num a)))
            \<and> balance_of (store L) A = Some (Num bA) \<and> balance_of (store L) B = Some (Num bB))
       \<or> (replies L i = Some (Inr (TransferSuccessful (Num a))) \<and> replies L j = Some (Inl insufficient_funds)
            \<and> balance_of (store L) A = Some (Num (bA - a)) \<and> balance_of (store L) B = Some (Num (bB + a)))
       \<or> (replies L i = Some (Inl insufficient_funds) \<and> replies L j = Some (Inr (TransferSuccessful (Num a)))
            \<and> balance_of (store L) A = Some (Num (bA + a)) \<and> balance_of (store L) B = Some (Num (bB - a)))
       \<or> (replies L i = Some (Inl insufficient_funds) \<and> replies L j = Some (Inl insufficient_funds)
            \<and> balance_of (store L) A = Some (Num bA) \<and> balance_of (store L) B = Some (Num bB)))
       \<and> (a \<le> bA \<longrightarrow> replies L i = Some (Inr (TransferSuccessful (Num a))))
       \<and> (a \<le> bB \<longrightarrow> replies L j = Some (Inr (TransferSuccessful (Num a))))
       \<and> (bA < a \<and> bB < a \<longrightarrow>
            replies L i = Some (Inl insufficient_funds) \<and> replies L j = Some (Inl insufficient_funds))"
proof -
  note [simp] = fire_Start fire_Resume fire_Resume_None enter_def balance_of_def
    authenticate_accounts_update balance_debit_credit debited_def credited_def
    js_sub_def opposite_exact[OF bound a]
  show ?thesis
    using A B ne accA accB a sched unfolding shuffles_two L
    by (elim disjE) (simp_all del: fire.simps)
qed

text \<open>The same two requests when both tokens resolve to one account.\<close>

lemma self_transfers_visible:
  assumes A: "authenticate s tokA = Inr A" and B: "authenticate s tokB = Inr A"
    and ne: "A \<noteq> []" "i \<noteq> j"
    and accA: "accounts s A = Some accA" "balance accA = Num bA"
    and bound: "\<bar>bA\<bar> \<le> 9007199254740992" and a: "0 < a"
    and sched: "sched \<in> shuffles [Start i tokA (Some A) (Some (Num a)), Resume i d1 d2]
                                 [Start j tokB (Some A) (Some (Num a)), Resume j d3 d4]"
    and k: "k \<le> length sched"
    and V: "V = store (foldl fire (enter s) (take k sched))"
  shows "balance_of V A = Some (Num bA) \<and> (v \<noteq> A \<longrightarrow> accounts V v = accounts s v)"
proof -
  have e: "\<not> bA < a \<Longrightarrow> round_double (bA - a) = Num (bA - a)" "round_double bA = Num bA"
    using bound a by (simp_all add: round_double_exact)
  note [simp] = fire_Start fire_Resume fire_Resume_None enter_def balance_of_def
    authenticate_accounts_update balance_debit_credit debited_def credited_def
    js_sub_def e debit_credit_other option.map_ident
  from sched have len: "length sched = 4" by (auto simp: shuffles_two)
  with k have "k = 0 \<or> k = 1 \<or> k = 2 \<or> k = 3 \<or> k = 4" by arith
  then show ?thesis
    using A B ne accA a sched unfolding shuffles_two V
    by (elim disjE) (simp_all del: fire.simps)
qed

lemma self_transfers_final:
  assumes A: "authenticate s tokA = Inr A" and B: "authenticate s tokB = Inr A"
    and ne: "A \<noteq> []" "i \<noteq> j"
    and accA: "accounts s A = Some accA" "balance accA = Num bA"
    and bound: "\<bar>bA\<bar> \<le> 9007199254740992" and a: "0 < a"
    and sched: "sched \<in> shuffles [Start i tokA (Some A) (Some (Num a)), Resume i d1 d2]
                                 [Start j tokB (Some A) (Some (Num a)), Resume j d3 d4]"
    and L: "L = foldl fire (enter s) sched"
  shows "balance_of (store L) A = Some (Num bA)
       \<and> (if a \<le> bA
           then replies L i = Some (Inr (TransferSuccessful (Num a))) \<and> replies L j = Some (Inr (TransferSuccessful (Num a)))
           else replies L i = Some (Inl insufficient_funds) \<and> replies L j = Some (Inl insufficient_funds))"
proof -
  have e: "\<not> bA < a \<Longrightarrow> round_double (bA - a) = Num (bA - a)" "round_double bA = Num bA"
    using bound a by (simp_all add: round_double_exact)
  note [simp] = fire_Start fire_Resume fire_Resume_None enter_def balance_of_def
    authenticate_accounts_update balance_debit_credit debited_def credited_def
    js_sub_def e
  show ?thesis
    using A B ne accA a sched unfolding shuffles_two L
    by (elim disjE) (simp_all del: fire.simps)
qed

lemma fire_dom: "dom (accounts (store (fire L e))) = dom (accounts (store L))"
proof (cases e)
  case (Start i token toUserId amt)
  then show ?thesis by (simp split: sum.splits)
next
  case (Resume i d1 d2)
  show ?thesis
  proof (cases "waiting L i")
    case None
    with Resume show ?thesis by simp
  next
    case (Some p)
    have "store (fire L (Resume i d1 d2)) = snd (transfer_commit (store L) p d1 d2)"
      using Some by (simp split: prod.splits)
    with Resume transfer_commit_dom[of "store L" p d1 d2] show ?thesis by simp
  qed
qed

lemma foldl_fire_dom: "dom (accounts (store (foldl fire L evs))) = dom (accounts (store L))"
  by (induction evs arbitrary: L) (simp_all add: fire_dom)

lemma total_balance_two:
  assumes d: "dom (accounts V) = dom (accounts s)"
    and others: "\<And>v. v \<noteq> A \<Longrightarrow> v \<noteq> B \<Longrightarrow> accounts V v = accounts s v"
    and AB: "A \<in> dom (accounts s)" "B \<in> dom (accounts s)"
    and eq: "(\<Sum>v\<in>{A, B}. the_int (balance (the (accounts V v))))
           = (\<Sum>v\<in>{A, B}. the_int (balance (the (accounts s v))))"
  shows "total_balance V = total_balance s"
proof (cases "finite (dom (accounts s))")
  case False
  then show ?thesis by (simp add: total_balance_def d)
next
  case True
  let ?D = "dom (accounts s)"
  let ?f = "\<lambda>v. the_int (balance (the (accounts s v)))"
  let ?g = "\<lambda>v. the_int (balance (the (accounts V v)))"
  have sub: "{A, B} \<subseteq> ?D" using AB by simp
  have "sum ?g ?D = sum ?g (?D - {A, B}) + sum ?g {A, B}"
    by (rule sum.subset_diff[OF sub True])
  also have "sum ?g (?D - {A, B}) = sum ?f (?D - {A, B})"
    by (rule sum.cong) (simp_all add: others)
  also have "sum ?f (?D - {A, B}) + sum ?g {A, B} = sum ?f (?D - {A, B}) + sum ?f {A, B}"
    using eq by simp
  also have "\<dots> = sum ?f ?D"
    by (rule sum.subset_diff[OF sub True, symmetric])
  finally show ?thesis by (simp add: total_balance_def d)
qed

text \<open>
  A transfer fails exactly when its sender's balance is less than the amount in the
  store its first part finds.
\<close>

lemma opposite_transfers_checked:
  assumes A: "authenticate s tokA = Inr A" and B: "authenticate s tokB = Inr B"
    and ne: "A \<noteq> B" "A \<noteq> []" "B \<noteq> []" "i \<noteq> j"
    and accA: "accounts s A = Some accA" "balance accA = Num bA"
    and accB: "accounts s B = Some accB" "balance accB = Num bB"
    and bound: "\<bar>bA\<bar> + \<bar>bB\<bar> \<le> 9007199254740992" and a: "0 < a"
    and sched: "sched \<in> shuffles [Start i tokA (Some B) (Some (Num a)), Resume i d1 d2]
                                 [Start j tokB (Some A) (Some (Num a)), Resume j d3 d4]"
    and L: "L = foldl fire (enter s) sched"
    and P: "P = store (foldl fire (enter s) (takeWhile (\<lambda>e. e \<noteq> Start i tokA (Some B) (Some (Num a))) sched))"
    and Q: "Q = store (foldl fire (enter s) (takeWhile (\<lambda>e. e \<noteq> Start j tokB (Some A) (Some (Num a))) sched))"
  shows "(\<exists>x. balance_of P A = Some (Num x) \<and> (replies L i = Some (Inl insufficient_funds)) = (x < a))
       \<and> (\<exists>y. balance_of Q B = Some (Num y) \<and> (replies L j = Some (Inl insufficient_funds)) = (y < a))"
proof -
  note [simp] = fire_Start fire_Resume fire_Resume_None enter_def balance_of_def
    authenticate_accounts_update balance_debit_credit debited_def credited_def
    js_sub_def opposite_exact[OF bound a]
  show ?thesis
    using A B ne accA accB a sched unfolding shuffles_two L P Q
    by (elim disjE) (simp_all del: fire.simps)
qed

lemma self_transfers_checked:
  assumes A: "authenticate s tokA = Inr A" and B: "authenticate s tokB = Inr A"
    and ne: "A \<noteq> []" "i \<noteq> j"
    and accA: "accounts s A = Some accA" "balance accA = Num bA"
    and bound: "\<bar>bA\<bar> \<le> 9007199254740992" and a: "0 < a"
    and sched: "sched \<in> shuffles [Start i tokA (Some A) (Some (Num a)), Resume i d1 d2]
                                 [Start j tokB (Some A) (Some (Num a)), Resume j d3 d4]"
    and L: "L = foldl fire (enter s) sched"
    and P: "P = store (foldl fire (enter s) (takeWhile (\<lambda>e. e \<noteq> Start i tokA (Some A) (Some (Num a))) sched))"
    and Q: "Q = store (foldl fire (enter s) (takeWhile (\<lambda>e. e \<noteq> Start j tokB (Some A) (Some (Num a))) sched))"
  shows "(\<exists>x. balance_of P A = Some (Num x) \<and> (replies L i = Some (Inl insufficient_funds)) = (x < a))
       \<and> (\<exists>y. balance_of Q A = Some (Num y) \<and> (replies L j = Some (Inl insufficient_funds)) = (y < a))"
proof -
  have e: "\<not> bA < a \<Longrightarrow> round_double (bA - a) = Num (bA - a)" "round_double bA = Num bA"
    using bound a by (simp_all add: round_double_exact)
  note [simp] = fire_Start fire_Resume fire_Resume_None enter_def balance_of_def
    authenticate_accounts_update balance_debit_credit debited_def credited_def
    js_sub_def e
  show ?thesis
    using A B ne accA a sched unfolding shuffles_two L P Q
    by (elim disjE) (simp_all del: fire.simps)
qed

text \<open>
  Two transfers from one sender that overlap both pass the balance check of line 173
  before either is committed, and the sender is overdrawn.
\<close>

lemma overlapping_transfers_overdraw:
  "balance_of (store (foldl fire (enter scenario)
      [Start 1 (Some ''token_a1'') (Some ''bob'') (Some (Num 1000)),
       Start 2 (Some ''token_a1'') (Some ''bob'') (Some (Num 1000)),
       Resume 1 10 20, Resume 2 30 40])) ''alice'' = Some (Num (- 1000))"
  by (simp add: scenario_eq enter_def balance_of_def transfer_check_def authenticate_def
        transfer_commit_def Let_def js_not_def js_sub_def round_double_exact)

subsection \<open>More about the example states\<close>


lemma total_balance_big: "total_balance big = 27021597764222978"
  by (simp add: big_eq total_balance_def)

lemma balance_of_the:
  "balance_of V u = Some x \<Longrightarrow> balance (the (accounts V u)) = x"
  by (auto simp: balance_of_def)

lemma round_nat_up_even: "round_nat 9007199254740995 = 9007199254740996"
proof -
  have s: "scale 9007199254740995 = Suc 0"
    by (simp add: scale.simps[of 9007199254740995] scale_small)
  show ?thesis by (simp add: round_nat_def s)
qed

lemma round_double_up_even: "round_double 9007199254740995 = Num 9007199254740996"
  by (simp add: round_double_def round_nat_up_even)

section \<open>The claims\<close>

text \<open>
  The statements about one operation are about its route handler, that is about a
  request that has passed the rate limit; the rate limit itself is the subject of C6.
  \<open>scenario\<close> and \<open>big\<close> are the states in which the examples are evaluated.
\<close>




text \<open>
  C2 (as amended).  The claim itself fails: /register stores whatever balance the body
  carries, so one request reaches a state with a negative balance (the last theorem of
  this block).  What holds: if every balance that a /register request carries satisfies
  \<open>0 <= balance\<close> (so it is neither below 0 nor \<open>NaN\<close>) and no /transfer request
  carries the amount \<open>Infinity\<close>, then after any list of requests handled one after the
  other, from the empty initial state, every stored balance \<open>b\<close> satisfies \<open>0 <= b\<close> (it
  may be \<open>Infinity\<close>, it is never \<open>NaN\<close>).
\<close>

theorem C2_no_negative_balance:
  assumes "\<forall>r\<in>set reqs. admissible r" and "accounts (snd (run init reqs)) u = Some acc"
  shows "js_le (Num 0) (balance acc)"
proof -
  have "balances_nonneg init" by (simp add: balances_nonneg_def init_def)
  from balances_nonneg_run[OF this assms(1)] assms(2) show ?thesis
    by (auto simp: balances_nonneg_def)
qed

theorem C2_no_negative_balance_witness:
  "list_all admissible
     [PostRegister (Some ''alice'') (Some ''Alice'') (Some (Num 1000)),
      PostRegister (Some ''bob'') (Some ''Bob'') None,
      PostLogin (Some ''alice'') ''a1'',
      PostLogin (Some ''bob'') ''b1'',
      PostTransfer (Some ''token_a1'') (Some ''bob'') (Some (Num 500)) 10 20]
   \<and> accounts (snd (run init
     [PostRegister (Some ''alice'') (Some ''Alice'') (Some (Num 1000)),
      PostRegister (Some ''bob'') (Some ''Bob'') None,
      PostLogin (Some ''alice'') ''a1'',
      PostLogin (Some ''bob'') ''b1'',
      PostTransfer (Some ''token_a1'') (Some ''bob'') (Some (Num 500)) 10 20])) ''alice''
       = Some \<lparr>name = ''Alice'', balance = Num 500, transactions = [Debit (Num 500) ''bob'' 10]\<rparr>
   \<and> js_le (Num 0) (balance \<lparr>name = ''Alice'', balance = Num 500, transactions = [Debit (Num 500) ''bob'' 10]\<rparr>)"
proof -
  let ?reqs = "[PostRegister (Some ''alice'') (Some ''Alice'') (Some (Num 1000)),
      PostRegister (Some ''bob'') (Some ''Bob'') None,
      PostLogin (Some ''alice'') ''a1'',
      PostLogin (Some ''bob'') ''b1'',
      PostTransfer (Some ''token_a1'') (Some ''bob'') (Some (Num 500)) 10 20]"
  have n: "\<forall>r\<in>set ?reqs. admissible r" by simp
  have "snd (run init ?reqs) = snd (handle scenario (PostTransfer (Some ''token_a1'') (Some ''bob'') (Some (Num 500)) 10 20))"
    unfolding scenario_def snd_run_Cons by simp
  also have "\<dots> = snd (transfer (scenario\<lparr>requestCount := 5\<rparr>) (Some ''token_a1'') (Some ''bob'') (Some (Num 500)) 10 20)"
    by (simp add: handle_eq scenario_eq)
  finally have acc: "accounts (snd (run init ?reqs)) ''alice''
     = Some \<lparr>name = ''Alice'', balance = Num 500, transactions = [Debit (Num 500) ''bob'' 10]\<rparr>"
    by (simp add: scenario_eq transfer_def transfer_check_def authenticate_def transfer_commit_def
          Let_def js_not_def js_sub_def round_double_exact)
  have l: "list_all admissible ?reqs" by simp
  from C2_no_negative_balance[OF n acc] l acc show ?thesis by blast
qed

theorem C2_negative_balance_reachable:
  "reachable (snd (handle init (PostRegister (Some ''mallory'') (Some ''Mallory'') (Some (Num (- 5))))))
   \<and> accounts (snd (handle init (PostRegister (Some ''mallory'') (Some ''Mallory'') (Some (Num (- 5)))))) ''mallory''
       = Some \<lparr>name = ''Mallory'', balance = Num (- 5), transactions = []\<rparr>
   \<and> \<not> js_le (Num 0) (balance \<lparr>name = ''Mallory'', balance = Num (- 5), transactions = []\<rparr>)"
  by (simp add: reachable_handle reachable_init) (simp add: handle_eq register_def init_def)

text \<open>
  C3 (as amended).  The claim itself fails: in the state \<open>big\<close> a successful transfer of
  1 leaves the recipient's balance of \<open>2 ^ 53\<close> as it was (the last theorem of this
  block).  What holds: if \<open>transfer\<close> replies success, the session resolved to a sender
  \<open>u\<close>, the body named a recipient \<open>t\<close> and an amount \<open>a\<close>, the reply carries \<open>a\<close>, and the
  new state differs from the old one exactly by \<open>debit_credit\<close>: the sender's balance
  becomes the double nearest to balance \<open>- a\<close> and one \<open>Debit a t\<close> is appended to the
  sender's history, the recipient's balance becomes the double nearest to balance
  \<open>+ a\<close> and one \<open>Credit a u\<close> is appended to the recipient's history; every other
  account, the sessions and the counter are as before.  The second part of the handler
  alone does the same in one step from any state that stores both accounts.  The two
  new balances are exactly balance \<open>- a\<close> and balance \<open>+ a\<close> whenever these are integers of
  magnitude at most \<open>2 ^ 53\<close>.
\<close>

theorem C3_transfer_commits:
  "(transfer s token toUserId amt d1 d2 = (Inr r, s') \<longrightarrow>
      (\<exists>p. authenticate s token = Inr (p_userId p) \<and> toUserId = Some (p_toUserId p)
          \<and> amt = Some (p_amount p) \<and> r = TransferSuccessful (p_amount p)
          \<and> s' = s\<lparr>accounts := (\<lambda>v. map_option (debit_credit p d1 d2 v) (accounts s v))\<rparr>))
   \<and> (accounts s (p_userId q) \<noteq> None \<and> accounts s (p_toUserId q) \<noteq> None \<longrightarrow>
        transfer_commit s q d1 d2 =
          (Inr (TransferSuccessful (p_amount q)),
           s\<lparr>accounts := (\<lambda>v. map_option (debit_credit q d1 d2 v) (accounts s v))\<rparr>))
   \<and> (balance acc = Num x \<and> p_amount q = Num n
        \<and> \<bar>x - (if v = p_userId q then n else 0)\<bar> \<le> 9007199254740992
        \<and> \<bar>x - (if v = p_userId q then n else 0) + (if v = p_toUserId q then n else 0)\<bar> \<le> 9007199254740992 \<longrightarrow>
        balance (debit_credit q d1 d2 v acc) =
          Num (x - (if v = p_userId q then n else 0) + (if v = p_toUserId q then n else 0)))"
proof (intro conjI impI)
  assume "transfer s token toUserId amt d1 d2 = (Inr r, s')"
  from transfer_ok[OF this] obtain p where
     p: "transfer_check s token toUserId amt = Inr p" and r: "r = TransferSuccessful (p_amount p)"
     and s': "s' = s\<lparr>accounts := (\<lambda>v. map_option (debit_credit p d1 d2 v) (accounts s v))\<rparr>"
    by blast
  from p have "authenticate s token = Inr (p_userId p) \<and> toUserId = Some (p_toUserId p)
          \<and> amt = Some (p_amount p)"
    by (auto simp: transfer_check_Inr)
  with r s' show "\<exists>p. authenticate s token = Inr (p_userId p) \<and> toUserId = Some (p_toUserId p)
          \<and> amt = Some (p_amount p) \<and> r = TransferSuccessful (p_amount p)
          \<and> s' = s\<lparr>accounts := (\<lambda>v. map_option (debit_credit p d1 d2 v) (accounts s v))\<rparr>"
    by blast
next
  assume "accounts s (p_userId q) \<noteq> None \<and> accounts s (p_toUserId q) \<noteq> None"
  then show "transfer_commit s q d1 d2 =
          (Inr (TransferSuccessful (p_amount q)),
           s\<lparr>accounts := (\<lambda>v. map_option (debit_credit q d1 d2 v) (accounts s v))\<rparr>)"
    by (simp add: transfer_commit_ok)
next
  assume "balance acc = Num x \<and> p_amount q = Num n
        \<and> \<bar>x - (if v = p_userId q then n else 0)\<bar> \<le> 9007199254740992
        \<and> \<bar>x - (if v = p_userId q then n else 0) + (if v = p_toUserId q then n else 0)\<bar> \<le> 9007199254740992"
  then show "balance (debit_credit q d1 d2 v acc) =
          Num (x - (if v = p_userId q then n else 0) + (if v = p_toUserId q then n else 0))"
    by (auto simp: debit_credit_def debited_def credited_def js_sub_def round_double_exact)
qed

theorem C3_transfer_commits_witness:
  "accounts scenario ''bob'' \<noteq> None \<and> accounts scenario ''alice'' \<noteq> None
   \<and> fst (transfer scenario (Some ''token_a1'') (Some ''bob'') (Some (Num 500)) 10 20) = Inr (TransferSuccessful (Num 500))
   \<and> accounts (snd (transfer scenario (Some ''token_a1'') (Some ''bob'') (Some (Num 500)) 10 20)) ''alice''
       = Some \<lparr>name = ''Alice'', balance = Num 500, transactions = [Debit (Num 500) ''bob'' 10]\<rparr>
   \<and> accounts (snd (transfer scenario (Some ''token_a1'') (Some ''bob'') (Some (Num 500)) 10 20)) ''bob''
       = Some \<lparr>name = ''Bob'', balance = Num 1500, transactions = [Credit (Num 500) ''alice'' 20]\<rparr>
   \<and> accounts (snd (transfer_commit scenario
         \<lparr>p_userId = ''bob'', p_toUserId = ''alice'', p_amount = Num 200\<rparr> 10 20)) ''alice''
       = Some \<lparr>name = ''Alice'', balance = Num 1200, transactions = [Credit (Num 200) ''bob'' 20]\<rparr>"
proof -
  let ?T = "transfer scenario (Some ''token_a1'') (Some ''bob'') (Some (Num 500)) 10 20"
  let ?q = "\<lparr>p_userId = ''bob'', p_toUserId = ''alice'', p_amount = Num 200\<rparr>"
  let ?alice = "\<lparr>name = ''Alice'', balance = Num 1000, transactions = []\<rparr>"
  have a: "authenticate scenario (Some ''token_a1'') = Inr ''alice''"
    by (simp add: scenario_eq authenticate_def)
  have accs: "accounts scenario ''alice'' = Some ?alice"
       "accounts scenario ''bob'' = Some \<lparr>name = ''Bob'', balance = Num 1000, transactions = []\<rparr>"
    by (simp_all add: scenario_eq)
  have t: "?T = (Inr (TransferSuccessful (Num 500)), snd ?T)"
    by (simp add: transfer_scenario)
  note c = C3_transfer_commits[where s = scenario and token = "Some ''token_a1''" and toUserId = "Some ''bob''"
             and amt = "Some (Num 500)" and ?d1.0 = 10 and ?d2.0 = 20
             and r = "TransferSuccessful (Num 500)" and s' = "snd ?T" and q = ?q
             and acc = ?alice and x = 1000 and n = 200 and v = "''alice''"]
  from c[THEN conjunct1, THEN mp, OF t] obtain p where
         e: "authenticate scenario (Some ''token_a1'') = Inr (p_userId p)"
            "Some ''bob'' = Some (p_toUserId p)" "Some (Num 500) = Some (p_amount p)"
     and s': "snd ?T = scenario\<lparr>accounts := (\<lambda>v. map_option (debit_credit p 10 20 v) (accounts scenario v))\<rparr>"
    by blast
  from e a have p: "p_userId p = ''alice''" "p_toUserId p = ''bob''" "p_amount p = Num 500"
    by simp_all
  have 1: "fst ?T = Inr (TransferSuccessful (Num 500))" using t by (simp add: prod_eq_iff)
  have 2: "accounts (snd ?T) ''alice'' = Some \<lparr>name = ''Alice'', balance = Num 500, transactions = [Debit (Num 500) ''bob'' 10]\<rparr>"
    unfolding s' using p accs
    by (simp add: debit_credit_def debited_def credited_def js_sub_def round_double_exact)
  have 3: "accounts (snd ?T) ''bob'' = Some \<lparr>name = ''Bob'', balance = Num 1500, transactions = [Credit (Num 500) ''alice'' 20]\<rparr>"
    unfolding s' using p accs
    by (simp add: debit_credit_def debited_def credited_def js_sub_def round_double_exact)
  from c[THEN conjunct2, THEN conjunct1] accs have tc: "transfer_commit scenario ?q 10 20 =
          (Inr (TransferSuccessful (p_amount ?q)),
           scenario\<lparr>accounts := (\<lambda>v. map_option (debit_credit ?q 10 20 v) (accounts scenario v))\<rparr>)"
    by simp
  from c[THEN conjunct2, THEN conjunct2]
  have b: "balance (debit_credit ?q 10 20 ''alice'' ?alice) = Num 1200" by simp
  have "accounts (snd (transfer_commit scenario ?q 10 20)) ''alice''
          = Some (debit_credit ?q 10 20 ''alice'' ?alice)"
    unfolding tc using accs by simp
  also have "debit_credit ?q 10 20 ''alice'' ?alice
          = \<lparr>name = ''Alice'', balance = Num 1200, transactions = [Credit (Num 200) ''bob'' 20]\<rparr>"
    using b by (simp add: debit_credit_def)
  finally have 4: "accounts (snd (transfer_commit scenario ?q 10 20)) ''alice''
       = Some \<lparr>name = ''Alice'', balance = Num 1200, transactions = [Credit (Num 200) ''bob'' 20]\<rparr>" .
  from accs have 0: "accounts scenario ''bob'' \<noteq> None \<and> accounts scenario ''alice'' \<noteq> None"
    by simp
  from 0 1 2 3 4 show ?thesis by blast
qed

theorem C3_credit_not_applied:
  "reachable big
   \<and> fst (transfer big (Some ''token_a1'') (Some ''bob'') (Some (Num 1)) 10 20) = Inr (TransferSuccessful (Num 1))
   \<and> accounts big ''bob''
        = Some \<lparr>name = ''Bob'', balance = Num 9007199254740992, transactions = []\<rparr>
   \<and> accounts (snd (transfer big (Some ''token_a1'') (Some ''bob'') (Some (Num 1)) 10 20)) ''bob''
        = Some \<lparr>name = ''Bob'', balance = Num 9007199254740992, transactions = [Credit (Num 1) ''alice'' 20]\<rparr>"
  by (simp add: reachable_big transfer_big) (simp add: big_eq)

text \<open>
  C4.  The failures of a transfer, in the order the handler checks them, each taking
  precedence over the later ones: \<open>unauthorized\<close> when the token is missing, empty or
  not a session; \<open>bad_request\<close> when the session is valid and \<open>toUserId\<close> is missing or
  empty or the amount is missing or not greater than 0; \<open>not_found\<close> when those pass and
  no account is stored under \<open>toUserId\<close>; \<open>insufficient_funds\<close> when those pass and the
  sender's balance is less than the amount.  Whatever the failure, the state after the
  transfer is the state before it.
\<close>

theorem C4_transfer_failures:
  "(token = None \<or> token = Some [] \<or> (\<exists>k. token = Some k \<and> sessions s k = None) \<longrightarrow>
       transfer s token toUserId amt d1 d2 = (Inl unauthorized, s))
   \<and> (authenticate s token = Inr u
        \<and> (toUserId = None \<or> toUserId = Some [] \<or> amt = None \<or> (\<exists>a. amt = Some a \<and> \<not> js_lt (Num 0) a)) \<longrightarrow>
       transfer s token toUserId amt d1 d2 = (Inl bad_request, s))
   \<and> (authenticate s token = Inr u \<and> toUserId = Some t \<and> t \<noteq> [] \<and> amt = Some a \<and> js_lt (Num 0) a
        \<and> accounts s t = None \<longrightarrow>
       transfer s token toUserId amt d1 d2 = (Inl not_found, s))
   \<and> (authenticate s token = Inr u \<and> toUserId = Some t \<and> t \<noteq> [] \<and> amt = Some a \<and> js_lt (Num 0) a
        \<and> accounts s t \<noteq> None \<and> accounts s u = Some acc \<and> js_lt (balance acc) a \<longrightarrow>
       transfer s token toUserId amt d1 d2 = (Inl insufficient_funds, s))
   \<and> (fst (transfer s token toUserId amt d1 d2) = Inl e \<longrightarrow>
       snd (transfer s token toUserId amt d1 d2) = s)"
proof (intro conjI impI)
  assume "token = None \<or> token = Some [] \<or> (\<exists>k. token = Some k \<and> sessions s k = None)"
  then show "transfer s token toUserId amt d1 d2 = (Inl unauthorized, s)"
    by (auto simp: transfer_def transfer_check_def authenticate_def)
next
  assume "authenticate s token = Inr u
        \<and> (toUserId = None \<or> toUserId = Some [] \<or> amt = None \<or> (\<exists>a. amt = Some a \<and> \<not> js_lt (Num 0) a))"
  then show "transfer s token toUserId amt d1 d2 = (Inl bad_request, s)"
    by (auto simp: transfer_def transfer_check_def js_positive_iff split: option.splits)
next
  assume h: "authenticate s token = Inr u \<and> toUserId = Some t \<and> t \<noteq> [] \<and> amt = Some a \<and> js_lt (Num 0) a
        \<and> accounts s t = None"
  with js_positive_iff[of a] show "transfer s token toUserId amt d1 d2 = (Inl not_found, s)"
    by (auto simp: transfer_def transfer_check_def)
next
  assume h: "authenticate s token = Inr u \<and> toUserId = Some t \<and> t \<noteq> [] \<and> amt = Some a \<and> js_lt (Num 0) a
        \<and> accounts s t \<noteq> None \<and> accounts s u = Some acc \<and> js_lt (balance acc) a"
  with js_positive_iff[of a] show "transfer s token toUserId amt d1 d2 = (Inl insufficient_funds, s)"
    by (auto simp: transfer_def transfer_check_def)
next
  assume "fst (transfer s token toUserId amt d1 d2) = Inl e"
  then show "snd (transfer s token toUserId amt d1 d2) = s"
    by (rule transfer_fail)
qed

theorem C4_transfer_failures_witness:
  "sessions scenario ''token_zz'' = None
   \<and> authenticate scenario (Some ''token_a1'') = Inr ''alice''
   \<and> accounts scenario ''carol'' = None
   \<and> accounts scenario ''bob'' \<noteq> None
   \<and> accounts scenario ''alice'' = Some \<lparr>name = ''Alice'', balance = Num 1000, transactions = []\<rparr>
   \<and> transfer scenario (Some ''token_zz'') (Some ''bob'') (Some (Num 500)) 10 20 = (Inl unauthorized, scenario)
   \<and> transfer scenario (Some ''token_a1'') (Some ''bob'') (Some (Num 0)) 10 20 = (Inl bad_request, scenario)
   \<and> transfer scenario (Some ''token_a1'') (Some ''carol'') (Some (Num 500)) 10 20 = (Inl not_found, scenario)
   \<and> transfer scenario (Some ''token_a1'') (Some ''bob'') (Some (Num 5000)) 10 20 = (Inl insufficient_funds, scenario)
   \<and> snd (transfer scenario (Some ''token_a1'') None (Some (Num 500)) 10 20) = scenario"
proof -
  have a: "authenticate scenario (Some ''token_a1'') = Inr ''alice''"
    by (simp add: scenario_eq authenticate_def)
  have accs: "accounts scenario ''alice'' = Some \<lparr>name = ''Alice'', balance = Num 1000, transactions = []\<rparr>"
       "accounts scenario ''bob'' \<noteq> None" "accounts scenario ''carol'' = None"
       "sessions scenario ''token_zz'' = None"
    by (simp_all add: scenario_eq)
  from C4_transfer_failures[where token = "Some ''token_zz''" and s = scenario and toUserId = "Some ''bob''"
          and amt = "Some (Num 500)" and ?d1.0 = 10 and ?d2.0 = 20] accs(4)
  have 1: "transfer scenario (Some ''token_zz'') (Some ''bob'') (Some (Num 500)) 10 20 = (Inl unauthorized, scenario)"
    by simp
  from C4_transfer_failures[where token = "Some ''token_a1''" and s = scenario and toUserId = "Some ''bob''"
          and amt = "Some (Num 0)" and ?d1.0 = 10 and ?d2.0 = 20 and u = "''alice''"] a
  have 2: "transfer scenario (Some ''token_a1'') (Some ''bob'') (Some (Num 0)) 10 20 = (Inl bad_request, scenario)"
    by simp
  from C4_transfer_failures[where token = "Some ''token_a1''" and s = scenario and toUserId = "Some ''carol''"
          and amt = "Some (Num 500)" and ?d1.0 = 10 and ?d2.0 = 20 and u = "''alice''" and t = "''carol''"
          and a = "Num 500"] a accs(3)
  have 3: "transfer scenario (Some ''token_a1'') (Some ''carol'') (Some (Num 500)) 10 20 = (Inl not_found, scenario)"
    by simp
  from C4_transfer_failures[where token = "Some ''token_a1''" and s = scenario and toUserId = "Some ''bob''"
          and amt = "Some (Num 5000)" and ?d1.0 = 10 and ?d2.0 = 20 and u = "''alice''" and t = "''bob''"
          and a = "Num 5000" and acc = "\<lparr>name = ''Alice'', balance = Num 1000, transactions = []\<rparr>"] a accs(1,2)
  have 4: "transfer scenario (Some ''token_a1'') (Some ''bob'') (Some (Num 5000)) 10 20 = (Inl insufficient_funds, scenario)"
    by simp
  have "fst (transfer scenario (Some ''token_a1'') None (Some (Num 500)) 10 20) = Inl bad_request"
    by (simp add: transfer_def transfer_check_def a)
  with C4_transfer_failures[where token = "Some ''token_a1''" and s = scenario and toUserId = None
          and amt = "Some (Num 500)" and ?d1.0 = 10 and ?d2.0 = 20 and e = bad_request]
  have 5: "snd (transfer scenario (Some ''token_a1'') None (Some (Num 500)) 10 20) = scenario"
    by blast
  from accs a 1 2 3 4 5 show ?thesis by blast
qed

text \<open>
  C5 (as amended).  The claim itself fails: in the state \<open>big\<close> a loan of 1 is approved
  and the balance of \<open>2 ^ 53\<close> stays what it was (the last theorem of this block).  What
  holds, in a reachable state, with a token that \<open>authenticate\<close> resolves to \<open>u\<close>: the loan
  replies \<open>bad_request\<close> exactly when the amount is not in the interval \<open>(0, 10000]\<close> (a
  missing amount is not in it); otherwise the account of \<open>u\<close> exists, the reply is the
  approval of the amount, and the new state is the old one with that single account's
  balance set to the double nearest to balance \<open>+\<close> amount and one \<open>Loan\<close> entry of the
  amount appended to its history.  The new balance is exactly balance \<open>+\<close> amount
  whenever that is an integer of magnitude at most \<open>2 ^ 53\<close>.
\<close>

theorem C5_loan:
  assumes "reachable s" and "authenticate s token = Inr u"
  shows "(fst (loan s token amt d) = Inl bad_request)
           = (\<not> (\<exists>a. amt = Some a \<and> js_lt (Num 0) a \<and> js_le a (Num 10000)))
       \<and> (\<forall>a. amt = Some a \<and> js_lt (Num 0) a \<and> js_le a (Num 10000) \<longrightarrow>
            (\<exists>acc. accounts s u = Some acc
               \<and> loan s token amt d =
                  (Inr (LoanApproved a),
                   s\<lparr>accounts := (accounts s)(u \<mapsto>
                       acc\<lparr>balance := js_add (balance acc) a,
                           transactions := transactions acc @ [Loan a d]\<rparr>)\<rparr>)))
       \<and> (\<forall>acc x n. accounts s u = Some acc \<and> balance acc = Num x \<and> amt = Some (Num n)
              \<and> 0 < n \<and> n \<le> 10000 \<and> \<bar>x + n\<bar> \<le> 9007199254740992 \<longrightarrow>
            loan s token amt d =
              (Inr (LoanApproved (Num n)),
               s\<lparr>accounts := (accounts s)(u \<mapsto>
                   acc\<lparr>balance := Num (x + n),
                       transactions := transactions acc @ [Loan (Num n) d]\<rparr>)\<rparr>))"
proof -
  from assms obtain t where "sessions s t = Some u"
    by (auto simp: authenticate_Inr_iff)
  with reachable_sessions_valid[OF assms(1)] obtain acc where acc: "accounts s u = Some acc"
    by (auto simp: sessions_valid_def)
  have range: "(js_not a \<or> js_le a (Num 0) \<or> js_lt (Num 10000) a)
                 = (\<not> (js_lt (Num 0) a \<and> js_le a (Num 10000)))" for a
    by (cases a) (auto simp: js_not_def)
  have 1: "(fst (loan s token amt d) = Inl bad_request)
           = (\<not> (\<exists>a. amt = Some a \<and> js_lt (Num 0) a \<and> js_le a (Num 10000)))"
    using assms(2) acc by (auto simp: loan_def range split: option.splits)
  have 2: "\<forall>a. amt = Some a \<and> js_lt (Num 0) a \<and> js_le a (Num 10000) \<longrightarrow>
            (\<exists>acc. accounts s u = Some acc
               \<and> loan s token amt d =
                  (Inr (LoanApproved a),
                   s\<lparr>accounts := (accounts s)(u \<mapsto>
                       acc\<lparr>balance := js_add (balance acc) a,
                           transactions := transactions acc @ [Loan a d]\<rparr>)\<rparr>))"
    using assms(2) acc by (auto simp: loan_def range split: option.splits)
  have 3: "\<forall>acc x n. accounts s u = Some acc \<and> balance acc = Num x \<and> amt = Some (Num n)
              \<and> 0 < n \<and> n \<le> 10000 \<and> \<bar>x + n\<bar> \<le> 9007199254740992 \<longrightarrow>
            loan s token amt d =
              (Inr (LoanApproved (Num n)),
               s\<lparr>accounts := (accounts s)(u \<mapsto>
                   acc\<lparr>balance := Num (x + n),
                       transactions := transactions acc @ [Loan (Num n) d]\<rparr>)\<rparr>)"
    using assms(2) by (auto simp: loan_def js_not_def round_double_exact)
  from 1 2 3 show ?thesis by blast
qed

theorem C5_loan_witness:
  "reachable scenario
   \<and> authenticate scenario (Some ''token_a1'') = Inr ''alice''
   \<and> fst (loan scenario (Some ''token_a1'') (Some (Num 15000)) 70) = Inl bad_request
   \<and> loan scenario (Some ''token_a1'') (Some (Num 5000)) 70 =
       (Inr (LoanApproved (Num 5000)),
        scenario\<lparr>accounts := (accounts scenario)(''alice'' \<mapsto>
           \<lparr>name = ''Alice'', balance = Num 6000, transactions = [Loan (Num 5000) 70]\<rparr>)\<rparr>)"
proof -
  have a: "authenticate scenario (Some ''token_a1'') = Inr ''alice''"
    by (simp add: scenario_eq authenticate_def)
  have acc: "accounts scenario ''alice'' = Some \<lparr>name = ''Alice'', balance = Num 1000, transactions = []\<rparr>"
    by (simp add: scenario_eq)
  from C5_loan[OF reachable_scenario a, of "Some (Num 15000)" 70]
  have 1: "fst (loan scenario (Some ''token_a1'') (Some (Num 15000)) 70) = Inl bad_request" by simp
  from C5_loan[OF reachable_scenario a, of "Some (Num 5000)" 70, THEN conjunct2, THEN conjunct2,
         THEN spec, THEN spec, THEN spec, of "\<lparr>name = ''Alice'', balance = Num 1000, transactions = []\<rparr>" 1000 5000] acc
  have 2: "loan scenario (Some ''token_a1'') (Some (Num 5000)) 70 =
       (Inr (LoanApproved (Num 5000)),
        scenario\<lparr>accounts := (accounts scenario)(''alice'' \<mapsto>
           \<lparr>name = ''Alice'', balance = Num 6000, transactions = [Loan (Num 5000) 70]\<rparr>)\<rparr>)" by simp
  from reachable_scenario a 1 2 show ?thesis by blast
qed

theorem C5_loan_rounded_away:
  "reachable big
   \<and> authenticate big (Some ''token_a1'') = Inr ''alice''
   \<and> balance_of big ''alice'' = Some (Num 9007199254740992)
   \<and> fst (loan big (Some ''token_a1'') (Some (Num 1)) 70) = Inr (LoanApproved (Num 1))
   \<and> balance_of (snd (loan big (Some ''token_a1'') (Some (Num 1)) 70)) ''alice''
        = Some (Num 9007199254740992)"
  by (simp add: reachable_big)
     (simp add: big_eq authenticate_def loan_def js_not_def balance_of_def round_double_up)

text \<open>
  C6.  The rate limit.  Of the requests handled from the start of the process, the one
  at position \<open>i + 1\<close> (counting every request, whatever its route and sender) is
  answered \<open>rate_limit\<close> exactly when \<open>i + 1\<close> is a multiple of 10.  The counter is the
  number of requests handled so far: every request adds one to it, and nothing else
  changes it (the second part of a transfer leaves it alone).
\<close>

theorem C6_rate_limit_every_tenth:
  assumes "i < length reqs"
  shows "(fst (run init reqs) ! i = Inl rate_limit) = ((i + 1) mod 10 = 0)
       \<and> requestCount (snd (run init reqs)) = length reqs
       \<and> requestCount (snd (handle s req)) = requestCount s + 1
       \<and> requestCount (snd (transfer_commit s p d1 d2)) = requestCount s"
  using run_nth_rate_limit[OF assms, of init] run_requestCount[of init reqs]
  by (simp add: init_def handle_requestCount transfer_commit_requestCount)

theorem C6_rate_limit_every_tenth_witness:
  "9 < length (replicate 12 GetMetrics)
   \<and> fst (run init (replicate 12 GetMetrics)) ! 9 = Inl rate_limit
   \<and> fst (run init (replicate 12 GetMetrics)) ! 10 \<noteq> Inl rate_limit
   \<and> requestCount (snd (run init (replicate 12 GetMetrics))) = 12"
proof -
  have l: "9 < length (replicate 12 GetMetrics)" "10 < length (replicate 12 GetMetrics)" by simp_all
  from C6_rate_limit_every_tenth[OF l(1)] C6_rate_limit_every_tenth[OF l(2)]
  show ?thesis by simp
qed

text \<open>
  C7 (as amended).  The claim itself fails: the token is \<open>token_\<close> followed by a random
  draw, and /login stores it without looking whether it is live already.  When a login
  draws what an earlier login drew, the token it issues is not new, and the token
  issued to the first account now resolves to the second (the last theorem of this
  block).  What holds: a login for a stored account \<open>u\<close> replies the token \<open>token_\<close> + draw and
  registers it for \<open>u\<close>, changing no other session; a token that resolves to \<open>u\<close> goes
  on resolving to \<open>u\<close> through any list of requests in which no login is issued that
  same token; and a token that no reply since the start of the process has issued is
  answered \<open>unauthorized\<close>, with the state unchanged, by \<open>authenticate\<close> and so by
  /accounts, /balance, /transfer, /loan and /statement.
\<close>

theorem C7_sessions:
  "(accounts s u \<noteq> None \<longrightarrow>
      login s (Some u) rnd =
        (Inr (Token (''token_'' @ rnd)), s\<lparr>sessions := (sessions s)(''token_'' @ rnd \<mapsto> u)\<rparr>))
   \<and> (sessions s tok = Some u \<and> Inr (Token tok) \<notin> set (fst (run s reqs)) \<longrightarrow>
        sessions (snd (run s reqs)) tok = Some u)
   \<and> (Inr (Token tok) \<notin> set (fst (run init reqs)) \<longrightarrow>
        authenticate (snd (run init reqs)) (Some tok) = Inl unauthorized
        \<and> getAccounts (snd (run init reqs)) (Some tok) = (Inl unauthorized, snd (run init reqs))
        \<and> getBalance (snd (run init reqs)) (Some tok) fault = (Inl unauthorized, snd (run init reqs))
        \<and> transfer (snd (run init reqs)) (Some tok) toUserId amt d1 d2 = (Inl unauthorized, snd (run init reqs))
        \<and> loan (snd (run init reqs)) (Some tok) amt d = (Inl unauthorized, snd (run init reqs))
        \<and> statement (snd (run init reqs)) (Some tok) = (Inl unauthorized, snd (run init reqs)))"
proof (intro conjI impI)
  assume "accounts s u \<noteq> None"
  then show "login s (Some u) rnd =
        (Inr (Token (''token_'' @ rnd)), s\<lparr>sessions := (sessions s)(''token_'' @ rnd \<mapsto> u)\<rparr>)"
    by (simp add: login_def Let_def)
next
  assume "sessions s tok = Some u \<and> Inr (Token tok) \<notin> set (fst (run s reqs))"
  then show "sessions (snd (run s reqs)) tok = Some u"
    using run_sessions[of tok s reqs] by simp
next
  assume n: "Inr (Token tok) \<notin> set (fst (run init reqs))"
  from run_sessions[OF n] have "sessions (snd (run init reqs)) tok = None"
    by (simp add: init_def)
  then have u: "authenticate (snd (run init reqs)) (Some tok) = Inl unauthorized"
    by (simp add: authenticate_def)
  from u show "authenticate (snd (run init reqs)) (Some tok) = Inl unauthorized" .
  from u show "getAccounts (snd (run init reqs)) (Some tok) = (Inl unauthorized, snd (run init reqs))"
    by (rule unauthorized_everywhere)
  from u show "getBalance (snd (run init reqs)) (Some tok) fault = (Inl unauthorized, snd (run init reqs))"
    by (rule unauthorized_everywhere)
  from u show "transfer (snd (run init reqs)) (Some tok) toUserId amt d1 d2 = (Inl unauthorized, snd (run init reqs))"
    by (rule unauthorized_everywhere)
  from u show "loan (snd (run init reqs)) (Some tok) amt d = (Inl unauthorized, snd (run init reqs))"
    by (rule unauthorized_everywhere)
  from u show "statement (snd (run init reqs)) (Some tok) = (Inl unauthorized, snd (run init reqs))"
    by (rule unauthorized_everywhere)
qed

theorem C7_sessions_witness:
  "accounts scenario ''bob'' \<noteq> None
   \<and> sessions scenario ''token_a1'' = Some ''alice''
   \<and> Inr (Token ''token_a1'') \<notin> set (fst (run scenario [GetMetrics, PostLogin (Some ''bob'') ''b2'']))
   \<and> login scenario (Some ''bob'') ''b2'' =
     (Inr (Token ''token_b2''), scenario\<lparr>sessions := (sessions scenario)(''token_b2'' \<mapsto> ''bob'')\<rparr>)
   \<and> sessions (snd (run scenario [GetMetrics, PostLogin (Some ''bob'') ''b2''])) ''token_a1'' = Some ''alice''
   \<and> authenticate scenario (Some ''token_zz'') = Inl unauthorized
   \<and> statement scenario (Some ''token_zz'') = (Inl unauthorized, scenario)"
proof -
  let ?reqs = "[PostRegister (Some ''alice'') (Some ''Alice'') (Some (Num 1000)),
      PostRegister (Some ''bob'') (Some ''Bob'') None,
      PostLogin (Some ''alice'') ''a1'',
      PostLogin (Some ''bob'') ''b1'']"
  have b: "accounts scenario ''bob'' \<noteq> None" and a: "sessions scenario ''token_a1'' = Some ''alice''"
    by (simp_all add: scenario_eq)
  have n: "Inr (Token ''token_a1'') \<notin> set (fst (run scenario [GetMetrics, PostLogin (Some ''bob'') ''b2'']))"
    unfolding fst_run_Cons snd_run_Cons
    by (simp add: scenario_eq handle_eq getMetrics_def login_def Let_def)
  have z: "Inr (Token ''token_zz'') \<notin> set (fst (run init ?reqs))"
    unfolding replies_scenario by simp
  from C7_sessions[where s = scenario and u = "''bob''" and rnd = "''b2''"] b
  have 1: "login scenario (Some ''bob'') ''b2'' =
     (Inr (Token ''token_b2''), scenario\<lparr>sessions := (sessions scenario)(''token_b2'' \<mapsto> ''bob'')\<rparr>)"
    by simp
  from C7_sessions[where s = scenario and u = "''alice''" and tok = "''token_a1''"
         and reqs = "[GetMetrics, PostLogin (Some ''bob'') ''b2'']"] a n
  have 2: "sessions (snd (run scenario [GetMetrics, PostLogin (Some ''bob'') ''b2''])) ''token_a1'' = Some ''alice''"
    by blast
  from C7_sessions[where tok = "''token_zz''" and reqs = ?reqs] z
  have 3: "authenticate scenario (Some ''token_zz'') = Inl unauthorized
         \<and> statement scenario (Some ''token_zz'') = (Inl unauthorized, scenario)"
    unfolding scenario_def by blast
  from b a n 1 2 3 show ?thesis by blast
qed

theorem C7_token_reissued:
  "reachable scenario
   \<and> sessions scenario ''token_a1'' = Some ''alice''
   \<and> fst (login scenario (Some ''bob'') ''a1'') = Inr (Token ''token_a1'')
   \<and> sessions (snd (login scenario (Some ''bob'') ''a1'')) ''token_a1'' = Some ''bob''
   \<and> authenticate (snd (login scenario (Some ''bob'') ''a1'')) (Some ''token_a1'') = Inr ''bob''"
  by (simp add: reachable_scenario) (simp add: scenario_eq login_def authenticate_def Let_def)

text \<open>
  C8 (as amended).  The claim itself fails for a /register request without a name: the
  handler checks the fields before it looks the account up, so the reply is
  \<open>bad_request\<close>, not \<open>conflict\<close> (the last theorem of this block).  What holds: if an
  account is stored under \<open>u\<close>, every /register request for \<open>u\<close> fails and leaves the
  whole state as it was, hence the stored account with its balance, name and history;
  the reply is \<open>conflict\<close> when the request carries a non-empty name and \<open>bad_request\<close>
  when the name is missing or empty.
\<close>

theorem C8_register_existing:
  assumes "accounts s u \<noteq> None"
  shows "snd (register s (Some u) nm bal) = s
       \<and> fst (register s (Some u) nm bal) =
           (if u = [] \<or> nm = None \<or> nm = Some [] then Inl bad_request else Inl conflict)"
  using assms by (auto simp: register_def Let_def split: option.splits)

theorem C8_register_existing_witness:
  "accounts scenario ''alice'' \<noteq> None
   \<and> snd (register scenario (Some ''alice'') (Some ''Alice'') (Some (Num 5))) = scenario
   \<and> fst (register scenario (Some ''alice'') (Some ''Alice'') (Some (Num 5))) = Inl conflict
   \<and> accounts (snd (register scenario (Some ''alice'') (Some ''Alice'') (Some (Num 5)))) ''alice''
       = Some \<lparr>name = ''Alice'', balance = Num 1000, transactions = []\<rparr>"
proof -
  have h: "accounts scenario ''alice'' \<noteq> None"
    by (simp add: scenario_eq)
  have acc: "accounts scenario ''alice'' = Some \<lparr>name = ''Alice'', balance = Num 1000, transactions = []\<rparr>"
    by (simp add: scenario_eq)
  show ?thesis
    using C8_register_existing[OF h, of "Some ''Alice''" "Some (Num 5)"] acc h by simp
qed

theorem C8_existing_without_name:
  "accounts scenario ''alice'' \<noteq> None
   \<and> fst (register scenario (Some ''alice'') None (Some (Num 5))) = Inl bad_request
   \<and> fst (register scenario (Some ''alice'') None (Some (Num 5))) \<noteq> Inl conflict"
  by (simp add: scenario_eq register_def)

text \<open>
  C9 (as amended).  The claim itself fails, in two ways (the last theorem of this
  block): when neither account holds the amount both transfers are answered
  \<open>insufficient_funds\<close> and neither commits; and beyond \<open>2 ^ 53\<close> two opposite transfers
  that both commit do not cancel: in \<open>big\<close>, 1 from \<open>alice\<close> to \<open>carol\<close> and then 1 from
  \<open>carol\<close> to \<open>alice\<close> leave \<open>carol\<close> with 2 more than before, and between the two a
  third request sees a sum of balances that is 1 more.  What holds: \<open>s\<close> is a
  reachable state in which the token of request \<open>i\<close> resolves to the stored account \<open>A\<close>
  and the token of request \<open>j\<close> to the stored account \<open>B\<close>, the two balances are the
  integers \<open>bA\<close> and \<open>bB\<close> with \<open>\<bar>bA\<bar> + \<bar>bB\<bar>\<close> at most \<open>2 ^ 53\<close>, and \<open>a\<close> is an integer
  greater than 0.  Request \<open>i\<close> transfers \<open>a\<close> from \<open>A\<close> to \<open>B\<close>, request \<open>j\<close> transfers \<open>a\<close>
  from \<open>B\<close> to \<open>A\<close>; \<open>sched\<close> is any interleaving of the two parts of the one with the two
  parts of the other.  A third request sees the store \<open>V\<close> after some number \<open>k\<close> of these
  four steps.  Whatever the interleaving and whatever \<open>k\<close>: the sum of all balances in
  \<open>V\<close> is the sum in \<open>s\<close>, the balances of \<open>A\<close> and \<open>B\<close> in \<open>V\<close> are the original pair,
  or the pair after exactly the transfer from \<open>A\<close> to \<open>B\<close>, or the pair after exactly the
  transfer from \<open>B\<close> to \<open>A\<close> (never a debit without its credit), and every other
  account is as it is in \<open>s\<close>.  At the end \<open>L\<close> each
  request has been answered, with success or with \<open>insufficient_funds\<close>: if both
  succeeded the two balances are the original ones; if one failed the balances are
  those after the other transfer alone; if both failed nothing has changed.  A request
  whose sender held \<open>a\<close> in \<open>s\<close> succeeds in every interleaving, and both fail when
  neither account held \<open>a\<close>.  In general a request fails exactly when the balance of its
  sender is less than \<open>a\<close> in the store its first part finds (\<open>P\<close> for request \<open>i\<close>, \<open>Q\<close>
  for request \<open>j\<close>).
\<close>

theorem C9_opposite_transfers:
  assumes "reachable s"
    and "authenticate s tokA = Inr A" and "authenticate s tokB = Inr B" and "i \<noteq> j"
    and "accounts s A = Some accA" and "balance accA = Num bA"
    and "accounts s B = Some accB" and "balance accB = Num bB"
    and "\<bar>bA\<bar> + \<bar>bB\<bar> \<le> 9007199254740992" and "0 < a"
    and "sched \<in> shuffles [Start i tokA (Some B) (Some (Num a)), Resume i d1 d2]
                            [Start j tokB (Some A) (Some (Num a)), Resume j d3 d4]"
    and "k \<le> length sched"
    and "V = store (foldl fire (enter s) (take k sched))"
    and "L = foldl fire (enter s) sched"
    and "P = store (foldl fire (enter s)
                 (takeWhile (\<lambda>e. e \<noteq> Start i tokA (Some B) (Some (Num a))) sched))"
    and "Q = store (foldl fire (enter s)
                 (takeWhile (\<lambda>e. e \<noteq> Start j tokB (Some A) (Some (Num a))) sched))"
  shows "total_balance V = total_balance s
       \<and> (balance_of V A, balance_of V B)
            \<in> {(Some (Num bA), Some (Num bB)),
                (Some (Num (bA - a)), Some (Num (bB + a))),
                (Some (Num (bA + a)), Some (Num (bB - a)))}
       \<and> (\<forall>v. v \<noteq> A \<and> v \<noteq> B \<longrightarrow> accounts V v = accounts s v)
       \<and> ((replies L i = Some (Inr (TransferSuccessful (Num a))) \<and> replies L j = Some (Inr (TransferSuccessful (Num a)))
            \<and> balance_of (store L) A = Some (Num bA) \<and> balance_of (store L) B = Some (Num bB))
          \<or> (replies L i = Some (Inr (TransferSuccessful (Num a))) \<and> replies L j = Some (Inl insufficient_funds)
            \<and> balance_of (store L) A = Some (Num (bA - a)) \<and> balance_of (store L) B = Some (Num (bB + a)))
          \<or> (replies L i = Some (Inl insufficient_funds) \<and> replies L j = Some (Inr (TransferSuccessful (Num a)))
            \<and> balance_of (store L) A = Some (Num (bA + a)) \<and> balance_of (store L) B = Some (Num (bB - a)))
          \<or> (replies L i = Some (Inl insufficient_funds) \<and> replies L j = Some (Inl insufficient_funds)
            \<and> balance_of (store L) A = Some (Num bA) \<and> balance_of (store L) B = Some (Num bB)))
       \<and> (a \<le> bA \<longrightarrow> replies L i = Some (Inr (TransferSuccessful (Num a))))
       \<and> (a \<le> bB \<longrightarrow> replies L j = Some (Inr (TransferSuccessful (Num a))))
       \<and> (bA < a \<and> bB < a \<longrightarrow>
            replies L i = Some (Inl insufficient_funds) \<and> replies L j = Some (Inl insufficient_funds))
       \<and> (\<exists>x. balance_of P A = Some (Num x) \<and> (replies L i = Some (Inl insufficient_funds)) = (x < a))
       \<and> (\<exists>y. balance_of Q B = Some (Num y) \<and> (replies L j = Some (Inl insufficient_funds)) = (y < a))"
proof -
  from reachable_sessions_valid[OF assms(1)] assms(5,7) have ne: "A \<noteq> []" "B \<noteq> []"
    by (auto simp: sessions_valid_def)
  have d: "dom (accounts V) = dom (accounts s)"
    unfolding assms(13) using foldl_fire_dom[of "enter s" "take k sched"] by (simp add: enter_def)
  have AB: "A \<in> dom (accounts s)" "B \<in> dom (accounts s)"
    using assms(5,7) by auto
  show ?thesis
  proof (cases "A = B")
    case False
    have 2: "(balance_of V A, balance_of V B)
            \<in> {(Some (Num bA), Some (Num bB)),
                (Some (Num (bA - a)), Some (Num (bB + a))),
                (Some (Num (bA + a)), Some (Num (bB - a)))}"
      by (rule opposite_transfers_visible[OF assms(2,3) False ne assms(4,5,6,7,8,9,10,11,12,13)])
    have o: "accounts V v = accounts s v" if "v \<noteq> A" "v \<noteq> B" for v
      by (rule opposite_transfers_others[OF assms(2,3) False ne assms(4,5,7,10,11,12,13) that])
    from 2 have "the_int (balance (the (accounts V A))) + the_int (balance (the (accounts V B))) = bA + bB"
      by (auto dest!: balance_of_the)
    with False assms(5,6,7,8)
    have eq: "(\<Sum>v\<in>{A, B}. the_int (balance (the (accounts V v))))
           = (\<Sum>v\<in>{A, B}. the_int (balance (the (accounts s v))))"
      by simp
    have 1: "total_balance V = total_balance s"
      by (rule total_balance_two[OF d o AB eq])
    note 3 = opposite_transfers_final[OF assms(2,3) False ne assms(4,5,6,7,8,9,10,11,14)]
    note 4 = opposite_transfers_checked[OF assms(2,3) False ne assms(4,5,6,7,8,9,10,11,14,15,16)]
    from 1 2 o 3 4 show ?thesis by blast
  next
    case True
    with assms(5,6,7,8) have acc: "accB = accA" "bB = bA" by simp_all
    from assms(9) acc have bound: "\<bar>bA\<bar> \<le> 9007199254740992" by simp
    note h = assms(2) assms(3)[folded True] ne(1) assms(4) assms(5) assms(6) bound assms(10)
      assms(11)[folded True]
    have 2: "balance_of V A = Some (Num bA)" and o: "\<And>v. v \<noteq> A \<Longrightarrow> accounts V v = accounts s v"
      using self_transfers_visible[OF h assms(12,13)] by blast+
    from 2 assms(5,6) 
    have eq: "(\<Sum>v\<in>{A, A}. the_int (balance (the (accounts V v))))
           = (\<Sum>v\<in>{A, A}. the_int (balance (the (accounts s v))))"
      by (auto dest!: balance_of_the)
    have 1: "total_balance V = total_balance s"
      by (rule total_balance_two[OF d o AB(1) AB(1) eq])
    note 3 = self_transfers_final[OF h assms(14)]
    note 4 = self_transfers_checked[OF h assms(14) assms(15)[folded True] assms(16)[folded True]]
    from 1 2 o 3 4 True acc show ?thesis by (simp split: if_splits)
  qed
qed

theorem C9_opposite_transfers_witness:
  "reachable scenario
   \<and> authenticate scenario (Some ''token_a1'') = Inr ''alice''
   \<and> authenticate scenario (Some ''token_b1'') = Inr ''bob''
   \<and> [Start 1 (Some ''token_a1'') (Some ''bob'') (Some (Num 500)),
       Start 2 (Some ''token_b1'') (Some ''alice'') (Some (Num 500)),
       Resume 1 10 20, Resume 2 30 40]
        \<in> shuffles [Start 1 (Some ''token_a1'') (Some ''bob'') (Some (Num 500)), Resume 1 10 20]
                    [Start 2 (Some ''token_b1'') (Some ''alice'') (Some (Num 500)), Resume 2 30 40]
   \<and> total_balance (store (foldl fire (enter scenario) (take 3
      [Start 1 (Some ''token_a1'') (Some ''bob'') (Some (Num 500)),
       Start 2 (Some ''token_b1'') (Some ''alice'') (Some (Num 500)),
       Resume 1 10 20, Resume 2 30 40]))) = 2000
   \<and> balance_of (store (foldl fire (enter scenario) (take 3
      [Start 1 (Some ''token_a1'') (Some ''bob'') (Some (Num 500)),
       Start 2 (Some ''token_b1'') (Some ''alice'') (Some (Num 500)),
       Resume 1 10 20, Resume 2 30 40]))) ''alice'' = Some (Num 500)
   \<and> replies (foldl fire (enter scenario)
      [Start 1 (Some ''token_a1'') (Some ''bob'') (Some (Num 500)),
       Start 2 (Some ''token_b1'') (Some ''alice'') (Some (Num 500)),
       Resume 1 10 20, Resume 2 30 40]) 2 = Some (Inr (TransferSuccessful (Num 500)))"
proof -
  let ?sched = "[Start 1 (Some ''token_a1'') (Some ''bob'') (Some (Num 500)),
       Start 2 (Some ''token_b1'') (Some ''alice'') (Some (Num 500)),
       Resume 1 10 20, Resume 2 30 40]"
  have a: "authenticate scenario (Some ''token_a1'') = Inr ''alice''"
    and b: "authenticate scenario (Some ''token_b1'') = Inr ''bob''"
    by (simp_all add: scenario_eq authenticate_def)
  have accA: "accounts scenario ''alice'' = Some \<lparr>name = ''Alice'', balance = Num 1000, transactions = []\<rparr>"
       "balance \<lparr>name = ''Alice'', balance = Num 1000, transactions = []\<rparr> = Num 1000"
    and accB: "accounts scenario ''bob'' = Some \<lparr>name = ''Bob'', balance = Num 1000, transactions = []\<rparr>"
       "balance \<lparr>name = ''Bob'', balance = Num 1000, transactions = []\<rparr> = Num 1000"
    by (simp_all add: scenario_eq)
  have ne: "(1::nat) \<noteq> 2" "\<bar>1000::int\<bar> + \<bar>1000\<bar> \<le> 9007199254740992" "(0::int) < 500" by simp_all
  have sh: "?sched \<in> shuffles [Start 1 (Some ''token_a1'') (Some ''bob'') (Some (Num 500)), Resume 1 10 20]
                               [Start 2 (Some ''token_b1'') (Some ''alice'') (Some (Num 500)), Resume 2 30 40]"
    by (simp add: shuffles_two)
  have k: "3 \<le> length ?sched" by simp
  note c = C9_opposite_transfers[OF reachable_scenario a b ne(1) accA accB ne(2,3) sh k refl refl refl refl]
  have v: "balance_of (store (foldl fire (enter scenario) (take 3 ?sched))) ''alice'' = Some (Num 500)"
    using a b accA(1) accB(1)
    by (simp add: enter_def balance_of_def transfer_check_def transfer_commit_def Let_def
          js_not_def js_sub_def round_double_exact)
  from c have r: "replies (foldl fire (enter scenario) ?sched) 2 = Some (Inr (TransferSuccessful (Num 500)))"
    by simp
  from c have t: "total_balance (store (foldl fire (enter scenario) (take 3 ?sched))) = 2000"
    by (simp add: total_balance_scenario)
  from reachable_scenario a b sh t v r show ?thesis by blast
qed

theorem C9_outcomes_outside_the_claim:
  "reachable scenario
   \<and> authenticate scenario (Some ''token_a1'') = Inr ''alice''
   \<and> authenticate scenario (Some ''token_b1'') = Inr ''bob''
   \<and> balance_of scenario ''alice'' = Some (Num 1000)
   \<and> balance_of scenario ''bob'' = Some (Num 1000)
   \<and> [Start 1 (Some ''token_a1'') (Some ''bob'') (Some (Num 5000)),
       Start 2 (Some ''token_b1'') (Some ''alice'') (Some (Num 5000)),
       Resume 1 10 20, Resume 2 30 40]
        \<in> shuffles [Start 1 (Some ''token_a1'') (Some ''bob'') (Some (Num 5000)), Resume 1 10 20]
                    [Start 2 (Some ''token_b1'') (Some ''alice'') (Some (Num 5000)), Resume 2 30 40]
   \<and> replies (foldl fire (enter scenario)
      [Start 1 (Some ''token_a1'') (Some ''bob'') (Some (Num 5000)),
       Start 2 (Some ''token_b1'') (Some ''alice'') (Some (Num 5000)),
       Resume 1 10 20, Resume 2 30 40]) 1 = Some (Inl insufficient_funds)
   \<and> replies (foldl fire (enter scenario)
      [Start 1 (Some ''token_a1'') (Some ''bob'') (Some (Num 5000)),
       Start 2 (Some ''token_b1'') (Some ''alice'') (Some (Num 5000)),
       Resume 1 10 20, Resume 2 30 40]) 2 = Some (Inl insufficient_funds)
   \<and> store (foldl fire (enter scenario)
      [Start 1 (Some ''token_a1'') (Some ''bob'') (Some (Num 5000)),
       Start 2 (Some ''token_b1'') (Some ''alice'') (Some (Num 5000)),
       Resume 1 10 20, Resume 2 30 40]) = scenario
   \<and> reachable big
   \<and> authenticate big (Some ''token_a1'') = Inr ''alice''
   \<and> authenticate big (Some ''token_c1'') = Inr ''carol''
   \<and> balance_of big ''alice'' = Some (Num 9007199254740992)
   \<and> balance_of big ''carol'' = Some (Num 9007199254740994)
   \<and> total_balance big = 27021597764222978
   \<and> [Start 1 (Some ''token_a1'') (Some ''carol'') (Some (Num 1)), Resume 1 10 20,
       Start 2 (Some ''token_c1'') (Some ''alice'') (Some (Num 1)), Resume 2 30 40]
        \<in> shuffles [Start 1 (Some ''token_a1'') (Some ''carol'') (Some (Num 1)), Resume 1 10 20]
                    [Start 2 (Some ''token_c1'') (Some ''alice'') (Some (Num 1)), Resume 2 30 40]
   \<and> total_balance (store (foldl fire (enter big) (take 2
      [Start 1 (Some ''token_a1'') (Some ''carol'') (Some (Num 1)), Resume 1 10 20,
       Start 2 (Some ''token_c1'') (Some ''alice'') (Some (Num 1)), Resume 2 30 40])))
        = 27021597764222979
   \<and> replies (foldl fire (enter big)
      [Start 1 (Some ''token_a1'') (Some ''carol'') (Some (Num 1)), Resume 1 10 20,
       Start 2 (Some ''token_c1'') (Some ''alice'') (Some (Num 1)), Resume 2 30 40]) 1
        = Some (Inr (TransferSuccessful (Num 1)))
   \<and> replies (foldl fire (enter big)
      [Start 1 (Some ''token_a1'') (Some ''carol'') (Some (Num 1)), Resume 1 10 20,
       Start 2 (Some ''token_c1'') (Some ''alice'') (Some (Num 1)), Resume 2 30 40]) 2
        = Some (Inr (TransferSuccessful (Num 1)))
   \<and> balance_of (store (foldl fire (enter big)
      [Start 1 (Some ''token_a1'') (Some ''carol'') (Some (Num 1)), Resume 1 10 20,
       Start 2 (Some ''token_c1'') (Some ''alice'') (Some (Num 1)), Resume 2 30 40])) ''alice''
        = Some (Num 9007199254740992)
   \<and> balance_of (store (foldl fire (enter big)
      [Start 1 (Some ''token_a1'') (Some ''carol'') (Some (Num 1)), Resume 1 10 20,
       Start 2 (Some ''token_c1'') (Some ''alice'') (Some (Num 1)), Resume 2 30 40])) ''carol''
        = Some (Num 9007199254740996)"
proof -
  have a: "authenticate scenario (Some ''token_a1'') = Inr ''alice''"
    and b: "authenticate scenario (Some ''token_b1'') = Inr ''bob''"
    by (simp_all add: scenario_eq authenticate_def)
  have accs: "accounts scenario ''alice'' = Some \<lparr>name = ''Alice'', balance = Num 1000, transactions = []\<rparr>"
       "accounts scenario ''bob'' = Some \<lparr>name = ''Bob'', balance = Num 1000, transactions = []\<rparr>"
    by (simp_all add: scenario_eq)
  have small: "reachable scenario
   \<and> authenticate scenario (Some ''token_a1'') = Inr ''alice''
   \<and> authenticate scenario (Some ''token_b1'') = Inr ''bob''
   \<and> balance_of scenario ''alice'' = Some (Num 1000)
   \<and> balance_of scenario ''bob'' = Some (Num 1000)
   \<and> [Start 1 (Some ''token_a1'') (Some ''bob'') (Some (Num 5000)),
       Start 2 (Some ''token_b1'') (Some ''alice'') (Some (Num 5000)),
       Resume 1 10 20, Resume 2 30 40]
        \<in> shuffles [Start 1 (Some ''token_a1'') (Some ''bob'') (Some (Num 5000)), Resume 1 10 20]
                    [Start 2 (Some ''token_b1'') (Some ''alice'') (Some (Num 5000)), Resume 2 30 40]
   \<and> replies (foldl fire (enter scenario)
      [Start 1 (Some ''token_a1'') (Some ''bob'') (Some (Num 5000)),
       Start 2 (Some ''token_b1'') (Some ''alice'') (Some (Num 5000)),
       Resume 1 10 20, Resume 2 30 40]) 1 = Some (Inl insufficient_funds)
   \<and> replies (foldl fire (enter scenario)
      [Start 1 (Some ''token_a1'') (Some ''bob'') (Some (Num 5000)),
       Start 2 (Some ''token_b1'') (Some ''alice'') (Some (Num 5000)),
       Resume 1 10 20, Resume 2 30 40]) 2 = Some (Inl insufficient_funds)
   \<and> store (foldl fire (enter scenario)
      [Start 1 (Some ''token_a1'') (Some ''bob'') (Some (Num 5000)),
       Start 2 (Some ''token_b1'') (Some ''alice'') (Some (Num 5000)),
       Resume 1 10 20, Resume 2 30 40]) = scenario"
    using a b accs
    by (simp add: reachable_scenario shuffles_two balance_of_def enter_def transfer_check_def js_not_def)
  have large: "reachable big
   \<and> authenticate big (Some ''token_a1'') = Inr ''alice''
   \<and> authenticate big (Some ''token_c1'') = Inr ''carol''
   \<and> balance_of big ''alice'' = Some (Num 9007199254740992)
   \<and> balance_of big ''carol'' = Some (Num 9007199254740994)
   \<and> total_balance big = 27021597764222978
   \<and> [Start 1 (Some ''token_a1'') (Some ''carol'') (Some (Num 1)), Resume 1 10 20,
       Start 2 (Some ''token_c1'') (Some ''alice'') (Some (Num 1)), Resume 2 30 40]
        \<in> shuffles [Start 1 (Some ''token_a1'') (Some ''carol'') (Some (Num 1)), Resume 1 10 20]
                    [Start 2 (Some ''token_c1'') (Some ''alice'') (Some (Num 1)), Resume 2 30 40]
   \<and> total_balance (store (foldl fire (enter big) (take 2
      [Start 1 (Some ''token_a1'') (Some ''carol'') (Some (Num 1)), Resume 1 10 20,
       Start 2 (Some ''token_c1'') (Some ''alice'') (Some (Num 1)), Resume 2 30 40])))
        = 27021597764222979
   \<and> replies (foldl fire (enter big)
      [Start 1 (Some ''token_a1'') (Some ''carol'') (Some (Num 1)), Resume 1 10 20,
       Start 2 (Some ''token_c1'') (Some ''alice'') (Some (Num 1)), Resume 2 30 40]) 1
        = Some (Inr (TransferSuccessful (Num 1)))
   \<and> replies (foldl fire (enter big)
      [Start 1 (Some ''token_a1'') (Some ''carol'') (Some (Num 1)), Resume 1 10 20,
       Start 2 (Some ''token_c1'') (Some ''alice'') (Some (Num 1)), Resume 2 30 40]) 2
        = Some (Inr (TransferSuccessful (Num 1)))
   \<and> balance_of (store (foldl fire (enter big)
      [Start 1 (Some ''token_a1'') (Some ''carol'') (Some (Num 1)), Resume 1 10 20,
       Start 2 (Some ''token_c1'') (Some ''alice'') (Some (Num 1)), Resume 2 30 40])) ''alice''
        = Some (Num 9007199254740992)
   \<and> balance_of (store (foldl fire (enter big)
      [Start 1 (Some ''token_a1'') (Some ''carol'') (Some (Num 1)), Resume 1 10 20,
       Start 2 (Some ''token_c1'') (Some ''alice'') (Some (Num 1)), Resume 2 30 40])) ''carol''
        = Some (Num 9007199254740996)"
    by (simp add: reachable_big total_balance_big shuffles_two)
       (simp add: big_eq enter_def authenticate_def transfer_check_def transfer_commit_def Let_def
          js_not_def js_sub_def balance_of_def total_balance_def round_double_exact round_double_up_even)
  from small large show ?thesis by blast
qed

text \<open>
  C10 (as amended).  The claim itself fails: in the state \<open>big\<close> a transfer of 1 from
  \<open>carol\<close> to \<open>carol\<close> succeeds and takes her balance from \<open>2 ^ 53 + 2\<close> to \<open>2 ^ 53\<close> (the
  last theorem of this block).  What holds, in a reachable state, with a token that
  \<open>authenticate\<close> resolves to \<open>u\<close>, an amount greater than 0 and a balance of \<open>u\<close> that is
  not less than the amount: the transfer to \<open>u\<close> replies success with the amount, the
  balance of \<open>u\<close> becomes the double nearest to (the double nearest to balance \<open>-\<close>
  amount) \<open>+\<close> amount, and the history of \<open>u\<close> has gained one \<open>Debit\<close> and then one
  \<open>Credit\<close> of the amount, both with \<open>u\<close> as the other party; nothing else changes.  The
  balance is what it was whenever it is an integer of magnitude at most \<open>2 ^ 53\<close> and
  the amount is an integer.
\<close>

theorem C10_self_transfer:
  assumes "reachable s" and "authenticate s token = Inr u" and "accounts s u = Some acc"
    and "js_lt (Num 0) a" and "\<not> js_lt (balance acc) a"
  shows "transfer s token (Some u) (Some a) d1 d2 =
           (Inr (TransferSuccessful a),
            s\<lparr>accounts := (accounts s)(u \<mapsto>
                 acc\<lparr>balance := js_add (js_sub (balance acc) a) a,
                     transactions := transactions acc @ [Debit a u d1, Credit a u d2]\<rparr>)\<rparr>)
       \<and> (\<forall>x n. balance acc = Num x \<and> a = Num n \<and> \<bar>x\<bar> \<le> 9007199254740992 \<longrightarrow>
            transfer s token (Some u) (Some a) d1 d2 =
              (Inr (TransferSuccessful a),
               s\<lparr>accounts := (accounts s)(u \<mapsto>
                    acc\<lparr>transactions := transactions acc @ [Debit a u d1, Credit a u d2]\<rparr>)\<rparr>))"
proof -
  from reachable_sessions_valid[OF assms(1)] assms(3) have ne: "u \<noteq> []"
    by (auto simp: sessions_valid_def)
  from assms(4) js_positive_iff[of a] have p: "\<not> js_not a" "\<not> js_le a (Num 0)" by auto
  have 1: "transfer s token (Some u) (Some a) d1 d2 =
           (Inr (TransferSuccessful a),
            s\<lparr>accounts := (accounts s)(u \<mapsto>
                 acc\<lparr>balance := js_add (js_sub (balance acc) a) a,
                     transactions := transactions acc @ [Debit a u d1, Credit a u d2]\<rparr>)\<rparr>)"
    using assms ne p
    by (simp add: transfer_def transfer_check_def transfer_commit_def Let_def)
  have 2: "js_add (js_sub (balance acc) a) a = balance acc"
    if "balance acc = Num x" "a = Num n" "\<bar>x\<bar> \<le> 9007199254740992" for x n
  proof -
    from assms(4,5) that have "0 < n" "n \<le> x" by simp_all
    with that(3) have "\<bar>x - n\<bar> \<le> 9007199254740992" by simp
    then have "js_sub (Num x) (Num n) = Num (x - n)" by (rule js_sub_exact)
    moreover from that(3) have "js_add (Num (x - n)) (Num n) = Num x"
      using js_add_exact[of "x - n" n] by simp
    ultimately show ?thesis using that by simp
  qed
  have 3: "transfer s token (Some u) (Some a) d1 d2 =
              (Inr (TransferSuccessful a),
               s\<lparr>accounts := (accounts s)(u \<mapsto>
                    acc\<lparr>transactions := transactions acc @ [Debit a u d1, Credit a u d2]\<rparr>)\<rparr>)"
    if "balance acc = Num x \<and> a = Num n \<and> \<bar>x\<bar> \<le> 9007199254740992" for x n
  proof -
    from that have "js_add (js_sub (balance acc) a) a = balance acc" by (intro 2) blast+
    with 1 show ?thesis by simp
  qed
  from 1 3 show ?thesis by blast
qed

theorem C10_self_transfer_witness:
  "reachable scenario
   \<and> authenticate scenario (Some ''token_a1'') = Inr ''alice''
   \<and> accounts scenario ''alice'' = Some \<lparr>name = ''Alice'', balance = Num 1000, transactions = []\<rparr>
   \<and> transfer scenario (Some ''token_a1'') (Some ''alice'') (Some (Num 300)) 10 20 =
     (Inr (TransferSuccessful (Num 300)),
      scenario\<lparr>accounts := (accounts scenario)(''alice'' \<mapsto>
        \<lparr>name = ''Alice'', balance = Num 1000,
         transactions = [Debit (Num 300) ''alice'' 10, Credit (Num 300) ''alice'' 20]\<rparr>)\<rparr>)"
proof -
  have a: "authenticate scenario (Some ''token_a1'') = Inr ''alice''"
    by (simp add: scenario_eq authenticate_def)
  have acc: "accounts scenario ''alice'' = Some \<lparr>name = ''Alice'', balance = Num 1000, transactions = []\<rparr>"
    by (simp add: scenario_eq)
  have p: "js_lt (Num 0) (Num 300)"
     "\<not> js_lt (balance \<lparr>name = ''Alice'', balance = Num 1000, transactions = []\<rparr>) (Num 300)"
    by simp_all
  from C10_self_transfer[OF reachable_scenario a acc p, of 10 20, THEN conjunct2, THEN spec, THEN spec,
         of 1000 300]
  have "transfer scenario (Some ''token_a1'') (Some ''alice'') (Some (Num 300)) 10 20 =
     (Inr (TransferSuccessful (Num 300)),
      scenario\<lparr>accounts := (accounts scenario)(''alice'' \<mapsto>
        \<lparr>name = ''Alice'', balance = Num 1000,
         transactions = [Debit (Num 300) ''alice'' 10, Credit (Num 300) ''alice'' 20]\<rparr>)\<rparr>)"
    by simp
  with reachable_scenario a acc show ?thesis by blast
qed

theorem C10_self_transfer_changes_balance:
  "reachable big
   \<and> authenticate big (Some ''token_c1'') = Inr ''carol''
   \<and> balance_of big ''carol'' = Some (Num 9007199254740994)
   \<and> fst (transfer big (Some ''token_c1'') (Some ''carol'') (Some (Num 1)) 10 20)
       = Inr (TransferSuccessful (Num 1))
   \<and> balance_of (snd (transfer big (Some ''token_c1'') (Some ''carol'') (Some (Num 1)) 10 20)) ''carol''
       = Some (Num 9007199254740992)"
  by (simp add: reachable_big)
     (simp add: big_eq authenticate_def transfer_def transfer_check_def transfer_commit_def Let_def
        js_not_def js_sub_def balance_of_def round_double_up round_double_exact)

end
